theory Spec2Isabelle
  imports Complex_Main "HOL-Library.Word"
begin

unbundle bit_operations_syntax

section \<open>Machine types and errors\<close>

text \<open>
  Go's fixed-width integers are words. A conversion between \<open>uint32\<close> and \<open>int32\<close>
  (or \<open>uint64\<close> and \<open>int64\<close>) keeps the bits, so both are the same word type here;
  \<open>uint\<close> reads a word as unsigned and \<open>sint\<close> as two's complement. A widening conversion
  of an unsigned value is \<open>ucast\<close>.
\<close>

type_synonym byte = "8 word"
type_synonym uint32 = "32 word"
type_synonym int32 = "32 word"
type_synonym uint64 = "64 word"
type_synonym int64 = "64 word"

text \<open>
  The sentinel errors of the package (\<open>var ( Err... )\<close>), one value for an error handed
  back by a library (\<open>url.Parse\<close>, \<open>m3u8.DecodeFrom\<close>), and the run-time panics of Go that
  the modelled functions can raise.
\<close>

datatype error =
    ErrUnsupportedProtocol
  | ErrInvaildTsPacket
  | ErrInvaildPESHeader
  | ErrTryAgain
  | ErrNotLiveM3u8File
  | ErrLibrary
  | PanicIndexOutOfRange
  | PanicSliceBounds
  | PanicTypeAssertion
  | PanicNilDereference
  | PanicTickerReset

definition PktAudio :: uint32 where
  "PktAudio = 0"

definition PktVideo :: uint32 where
  "PktVideo = 1"

definition STREAM_TYPE_AUDIO_AAC :: uint32 where
  "STREAM_TYPE_AUDIO_AAC = 0x0f"

definition STREAM_TYPE_VIDEO_H264 :: uint32 where
  "STREAM_TYPE_VIDEO_H264 = 0x1b"

definition STREAM_TYPE_VIDEO_HEVC :: uint32 where
  "STREAM_TYPE_VIDEO_HEVC = 0x24"

record AVPacket =
  pktType :: uint32
  pts :: uint32
  keyframe :: bool

section \<open>FLV client\<close>

text \<open>
  The tag types of the FLV library (\<open>github.com/yutopp/go-flv/tag\<close>), with the fields that
  \<open>FlvClient.Read\<close> looks at. \<open>Data\<close> is an interface value in Go: the variant says which
  concrete type it holds.
\<close>

datatype TagType = TagTypeAudio | TagTypeVideo | TagTypeScriptData

datatype FrameType =
    FrameTypeKeyFrame
  | FrameTypeInterFrame
  | FrameTypeDisposableInterFrame
  | FrameTypeGeneratedKeyFrame
  | FrameTypeVideoInfoCommandFrame

datatype AACPacketType = AACPacketTypeSequenceHeader | AACPacketTypeRaw

record VideoData =
  FrameType :: FrameType
  CompositionTime :: int32

record AudioData =
  AACPacketType :: AACPacketType

datatype TagData =
    PVideoData VideoData
  | PAudioData AudioData
  | PScriptData

record FlvTag =
  TagType :: TagType
  Timestamp :: uint32
  Data :: TagData

text \<open>
  \<open>FlvClient.Read\<close>. The argument is what \<open>c.decoder.Decode(&flvTag)\<close> produced: \<open>None\<close>
  when it returned an error, the decoded tag otherwise. A type assertion on \<open>Data\<close> that
  does not hold panics.
\<close>

definition FlvClient_Read :: "FlvTag option \<Rightarrow> error + AVPacket" where
  "FlvClient_Read decoded =
     (case decoded of
        None \<Rightarrow> Inl ErrTryAgain
      | Some flvTag \<Rightarrow>
          if TagType flvTag = TagTypeVideo then
            (case Data flvTag of
               PVideoData videoData \<Rightarrow>
                 let pts' = (Timestamp flvTag :: int32) + CompositionTime videoData;
                     keyframe' = (FrameType videoData = FrameTypeKeyFrame)
                 in Inr \<lparr>pktType = PktVideo, pts = pts', keyframe = keyframe'\<rparr>
             | _ \<Rightarrow> Inl PanicTypeAssertion)
          else if TagType flvTag = TagTypeAudio then
            (let pts' = Timestamp flvTag in
             case Data flvTag of
               PAudioData audioData \<Rightarrow>
                 if AACPacketType audioData = AACPacketTypeRaw
                 then Inr \<lparr>pktType = PktAudio, pts = pts', keyframe = False\<rparr>
                 else Inl ErrTryAgain
             | _ \<Rightarrow> Inl PanicTypeAssertion)
          else Inl ErrTryAgain)"

section \<open>HLS client: data\<close>

text \<open>
  Several structs of the source have a field \<open>url\<close> or \<open>header\<close>. The plain names are
  those of \<open>HlsClient\<close>; the fields of the others are written with the name of their
  record, as in \<open>TsSegment.url\<close>.
\<close>

record FlvClient =
  url :: string
  header :: "(string \<times> string) list option"

record TsSegment =
  url :: string
  seqId :: uint64

record PATProgram =
  programNumber :: uint32
  programMapPid :: uint32

record PAT =
  programs :: "PATProgram list"

record PMTStream =
  elementaryPid :: uint32
  streamType :: uint32

record PMT =
  pmtStreams :: "PMTStream list"

text \<open>
  \<open>HlsClient\<close>, without the fields that hold no data of the model (\<open>timeout\<close>, the
  context of the playlist poller and the mutex). A nil \<open>header\<close> map is \<open>None\<close>.
\<close>

record HlsClient =
  url :: string
  secondM3u8Url :: string
  scheme :: string
  host :: string
  header :: "(string \<times> string) list option"
  playlist :: "TsSegment list"
  lastSeqId :: int64
  buffer :: "byte list"
  pat :: PAT
  pmt :: PMT

text \<open>
  The client that \<open>Prober.Do\<close> builds,
  \<open>&HlsClient{url: p.Url, scheme: u.Scheme, host: u.Host, lastSeqId: -1}\<close>: the fields that
  the literal does not name are zero values.
\<close>

definition newHlsClient :: "string \<Rightarrow> string \<Rightarrow> string \<Rightarrow> HlsClient" where
  "newHlsClient u sch hst =
     \<lparr>url = u, secondM3u8Url = [], scheme = sch, host = hst, header = None, playlist = [],
      lastSeqId = - 1, buffer = [], pat = \<lparr>programs = []\<rparr>, pmt = \<lparr>pmtStreams = []\<rparr>\<rparr>"

section \<open>MPEG-TS: PES header\<close>

text \<open>
  The PTS expression of \<open>decodePES\<close>, which the source writes out once in each of the two
  branches, on the five bytes at the front of \<open>data\<close>. All of it is \<open>uint32\<close> arithmetic.
\<close>

definition decodePES_pts :: "byte list \<Rightarrow> uint32" where
  "decodePES_pts data =
     (push_bit 30 (ucast (drop_bit 1 (data ! 0) AND 0x07) :: uint32)
      OR push_bit 22 (ucast (data ! 1) :: uint32)
      OR push_bit 15 ((ucast (drop_bit 1 (data ! 2)) :: uint32) AND 0x7f)
      OR push_bit 7 (ucast (data ! 3) :: uint32)
      OR (ucast (drop_bit 1 (data ! 4)) :: uint32))"

text \<open>
  \<open>HlsClient.decodePES\<close>. It does not read the client. Every index and every reslice of
  the source is guarded by the length check under which Go panics; \<open>data1\<close>, \<open>data2\<close>, ...
  are the successive values of the variable \<open>data\<close>.
\<close>

definition decodePES :: "byte list \<Rightarrow> uint32 \<Rightarrow> error + AVPacket" where
  "decodePES data pktType' =
    (if length data < 3 then Inl PanicIndexOutOfRange else
     let packetStartCodePrefix =
           (push_bit 16 (ucast (data ! 0) :: uint32)
            OR push_bit 8 (ucast (data ! 1) :: uint32)
            OR (ucast (data ! 2) :: uint32)) in
     if packetStartCodePrefix \<noteq> 0x000001 then Inl ErrInvaildPESHeader else
     let data1 = drop 3 data in
     if length data1 < 1 then Inl PanicIndexOutOfRange else
     let streamId = (ucast (data1 ! 0) :: uint32) in
     if length data1 < 3 then Inl PanicSliceBounds else
     let data2 = drop 3 data1 in
     if streamId \<noteq> 188 \<and> streamId \<noteq> 190 \<and> streamId \<noteq> 191 \<and> streamId \<noteq> 240
        \<and> streamId \<noteq> 241 \<and> streamId \<noteq> 255 \<and> streamId \<noteq> 242 \<and> streamId \<noteq> 248
     then
       if length data2 < 1 then Inl PanicIndexOutOfRange else
       if (data2 ! 0) AND 0xc0 \<noteq> 0x80 then Inl ErrInvaildPESHeader else
       let data3 = drop 1 data2 in
       if length data3 < 1 then Inl PanicIndexOutOfRange else
       let PTS_DTS_flags = drop_bit 6 ((data3 ! 0) AND 0xc0) in
       if length data3 < 2 then Inl PanicSliceBounds else
       let data4 = drop 2 data3 in
       if PTS_DTS_flags = 2 then
         if length data4 < 1 then Inl PanicIndexOutOfRange else
         if drop_bit 4 ((data4 ! 0) AND 0xf0) \<noteq> 2 then Inl ErrInvaildPESHeader else
         if length data4 < 5 then Inl PanicIndexOutOfRange else
         Inr \<lparr>pktType = pktType', pts = decodePES_pts data4 div 90, keyframe = True\<rparr>
       else if PTS_DTS_flags = 3 then
         if length data4 < 1 then Inl PanicIndexOutOfRange else
         if drop_bit 4 ((data4 ! 0) AND 0xf0) \<noteq> 3 then Inl ErrInvaildPESHeader else
         if length data4 < 5 then Inl PanicIndexOutOfRange else
         Inr \<lparr>pktType = pktType', pts = decodePES_pts data4 div 90, keyframe = True\<rparr>
       else Inl ErrTryAgain
     else Inl ErrTryAgain)"

text \<open>
  The 33-bit PTS that the five bytes carry in the layout of the standard, which the comments
  of \<open>decodePES\<close> quote (\<open>PTS [32..30]\<close>, \<open>PTS [29..15]\<close>, \<open>PTS [14..0]\<close>, each followed by a
  marker bit), as a natural number.
\<close>

definition PTS33 :: "byte \<Rightarrow> byte \<Rightarrow> byte \<Rightarrow> byte \<Rightarrow> byte \<Rightarrow> nat" where
  "PTS33 b0 b1 b2 b3 b4 =
     (unat b0 div 2 mod 8) * 2 ^ 30 + unat b1 * 2 ^ 22 + (unat b2 div 2 mod 128) * 2 ^ 15
     + unat b3 * 2 ^ 7 + unat b4 div 2"

text \<open>
  A PES packet with a nine-byte header in front of the five PTS bytes: start code, stream id
  \<open>0xE0\<close>, a length of zero, the marker byte \<open>0x80\<close>, the flags byte with \<open>PTS_DTS_flags\<close> in
  its top two bits, and the header data length.
\<close>

definition pes_packet :: "byte \<Rightarrow> byte list \<Rightarrow> byte list" where
  "pes_packet flags ptsBytes = [0x00, 0x00, 0x01, 0xE0, 0x00, 0x00, 0x80, flags, 0x05] @ ptsBytes"

section \<open>MPEG-TS: PAT and PMT\<close>

text \<open>
  The section length of \<open>decodePAT\<close>: \<open>int32(data[1]&0x0f)<<8 | int32(data[2])\<close>. The byte
  is widened before it is shifted.
\<close>

definition decodePAT_sectionLength :: "byte list \<Rightarrow> int32" where
  "decodePAT_sectionLength data =
     push_bit 8 (ucast ((data ! 1) AND 0x0f) :: int32) OR (ucast (data ! 2) :: int32)"

text \<open>
  The loop of \<open>decodePAT\<close>; \<open>i\<close> and \<open>sectionLength\<close> are the values of the \<open>int32\<close>
  variables (the section length is below \<open>2^12\<close>, so \<open>i\<close> does not wrap around). Each round
  takes four bytes off \<open>data\<close>.
\<close>

function decodePAT_loop ::
  "int \<Rightarrow> int \<Rightarrow> byte list \<Rightarrow> PATProgram list \<Rightarrow> error + PATProgram list" where
  "decodePAT_loop i sectionLength data progs =
     (if i < sectionLength - 9 \<and> length data \<noteq> 0 then
        if length data < 2 then Inl PanicIndexOutOfRange
        else if (push_bit 8 (ucast (data ! 0) :: uint32) OR ucast (data ! 1)) \<noteq> 0x00
                \<and> length data < 4 then Inl PanicIndexOutOfRange
        else if length data < 4 then Inl PanicSliceBounds
        else decodePAT_loop (i + 4) sectionLength (drop 4 data)
               (if (push_bit 8 (ucast (data ! 0) :: uint32) OR ucast (data ! 1)) \<noteq> 0x00
                then progs @ [\<lparr>programNumber = push_bit 8 (ucast (data ! 0) :: uint32) OR ucast (data ! 1),
                                programMapPid =
                                  (push_bit 8 (ucast (data ! 2) :: uint32) OR ucast (data ! 3)) AND 0x1fff\<rparr>]
                else progs)
      else Inr progs)"
  by pat_completeness auto
termination
  by (relation "measure (\<lambda>(i, sectionLength, data, progs). length data)") auto

declare decodePAT_loop.simps [simp del]

definition decodePAT :: "HlsClient \<Rightarrow> byte list \<Rightarrow> error + HlsClient" where
  "decodePAT c data =
     (if length data < 3 then Inl PanicIndexOutOfRange
      else if length data < 8 then Inl PanicSliceBounds
      else case decodePAT_loop 0 (sint (decodePAT_sectionLength data)) (drop 8 data) [] of
             Inl e \<Rightarrow> Inl e
           | Inr progs \<Rightarrow> Inr (c\<lparr>pat := \<lparr>programs = progs\<rparr>\<rparr>))"

text \<open>
  The two lengths of \<open>decodePMT\<close>: \<open>int32((data[1]&0x0f)<<8) | int32(data[2])\<close> and
  \<open>int32((data[10]&0x0f)<<8) | int32(data[11])\<close>. Here the shift is inside the conversion: it
  is a shift of a \<open>byte\<close>, with a \<open>byte\<close> as its result.
\<close>

definition decodePMT_sectionLength :: "byte list \<Rightarrow> int32" where
  "decodePMT_sectionLength data =
     (ucast (push_bit 8 ((data ! 1) AND 0x0f) :: byte) :: int32) OR (ucast (data ! 2) :: int32)"

definition decodePMT_programInfoLength :: "byte list \<Rightarrow> int32" where
  "decodePMT_programInfoLength data =
     (ucast (push_bit 8 ((data ! 10) AND 0x0f) :: byte) :: int32) OR (ucast (data ! 11) :: int32)"

text \<open>
  The loop of \<open>decodePMT\<close>. \<open>esInfoLength\<close> is
  \<open>uint32(data[3]&0x0f)<<8 | uint32(data[4])\<close>; each round takes \<open>5 + esInfoLength\<close> bytes
  off \<open>data\<close>.
\<close>

function decodePMT_loop ::
  "int \<Rightarrow> int \<Rightarrow> byte list \<Rightarrow> PMTStream list \<Rightarrow> error + PMTStream list" where
  "decodePMT_loop i sectionLength data streams =
     (if i < sectionLength - 9 - 5 \<and> length data \<noteq> 0 then
        if length data < 5 then Inl PanicIndexOutOfRange
        else if length data
                < 5 + unat (push_bit 8 (ucast ((data ! 3) AND 0x0f) :: uint32) OR ucast (data ! 4))
        then Inl PanicSliceBounds
        else decodePMT_loop (i + 5) sectionLength
               (drop (5 + unat (push_bit 8 (ucast ((data ! 3) AND 0x0f) :: uint32) OR ucast (data ! 4)))
                  data)
               (streams @ [\<lparr>elementaryPid =
                               (push_bit 8 (ucast (data ! 1) :: uint32) OR ucast (data ! 2)) AND 0x1fff,
                             streamType = ucast (data ! 0)\<rparr>])
      else Inr streams)"
  by pat_completeness auto
termination
  by (relation "measure (\<lambda>(i, sectionLength, data, streams). length data)") auto

declare decodePMT_loop.simps [simp del]

definition decodePMT :: "HlsClient \<Rightarrow> byte list \<Rightarrow> error + HlsClient" where
  "decodePMT c data =
     (if length data < 12 then Inl PanicIndexOutOfRange
      else if length data < 12 + unat (decodePMT_programInfoLength data) then Inl PanicSliceBounds
      else case decodePMT_loop 0 (sint (decodePMT_sectionLength data))
                  (drop (12 + unat (decodePMT_programInfoLength data)) data) [] of
             Inl e \<Rightarrow> Inl e
           | Inr streams \<Rightarrow>
               if length streams \<noteq> 0 then Inr (c\<lparr>pmt := \<lparr>pmtStreams = streams\<rparr>\<rparr>) else Inr c)"

text \<open>
  A 12-bit length as the section syntax has it: the low four bits of the first byte are the
  high bits, the second byte is the low eight bits.
\<close>

definition length12 :: "byte \<Rightarrow> byte \<Rightarrow> nat" where
  "length12 hi lo = (unat hi mod 16) * 256 + unat lo"

text \<open>
  The start of a PMT section up to the program info length, with the two length fields given
  by their bytes, and one stream entry: H.264 on PID \<open>0x100\<close>, no descriptors.
\<close>

definition pmt_section :: "byte \<Rightarrow> byte \<Rightarrow> byte \<Rightarrow> byte \<Rightarrow> byte list \<Rightarrow> byte list" where
  "pmt_section sl_hi sl_lo pil_hi pil_lo rest =
     [0x02, sl_hi, sl_lo, 0x00, 0x01, 0xC1, 0x00, 0x00, 0xE1, 0x00, pil_hi, pil_lo] @ rest"

definition h264_entry :: "byte list" where
  "h264_entry = [0x1B, 0xE1, 0x00, 0xF0, 0x00]"

section \<open>HLS client: playlist polling\<close>

text \<open>
  What \<open>m3u8.DecodeFrom\<close> hands back: a master playlist with the URIs of its variants, or a
  media playlist with its \<open>Closed\<close> flag and its \<open>Segments\<close>, a slice of pointers in which
  the unused places are nil (\<open>None\<close>).
\<close>

record MediaSegment =
  SeqId :: uint64
  URI :: string

datatype Playlist =
    MasterPlaylist "string list"
  | MediaPlaylist bool "MediaSegment option list"

text \<open>\<open>time.Duration\<close> values are nanoseconds.\<close>

definition Millisecond :: int where
  "Millisecond = 1000000"

definition Second :: int where
  "Second = 1000000000"

definition HasPrefix :: "string \<Rightarrow> string \<Rightarrow> bool" where
  "HasPrefix s prfx = (length prfx \<le> length s \<and> take (length prfx) s = prfx)"

text \<open>
  The loop over \<open>mediaPlaylist.Segments\<close> in \<open>decodeM3u8\<close>. \<open>int64(segment.SeqId)\<close> reads
  the 64 bits as a signed number.
\<close>

fun decodeM3u8_segments :: "HlsClient \<Rightarrow> MediaSegment option list \<Rightarrow> HlsClient" where
  "decodeM3u8_segments c [] = c"
| "decodeM3u8_segments c (None # rest) = c"
| "decodeM3u8_segments c (Some segment # rest) =
     (if sint (SeqId segment) \<le> sint (lastSeqId c) then c
      else if \<not> (HasPrefix (URI segment) ''http://'' \<or> HasPrefix (URI segment) ''https://'') then
        decodeM3u8_segments
          (c\<lparr>lastSeqId := SeqId segment,
              playlist := playlist c @
                [\<lparr>TsSegment.url =
                     (if HasPrefix (URI segment) ''/''
                      then scheme c @ ''://'' @ host c @ URI segment
                      else scheme c @ ''://'' @ host c @ ''/'' @ URI segment),
                   seqId = SeqId segment\<rparr>]\<rparr>)
          rest
      else
        decodeM3u8_segments
          (c\<lparr>playlist := playlist c @ [\<lparr>TsSegment.url = URI segment, seqId = SeqId segment\<rparr>]\<rparr>)
          rest)"

text \<open>
  \<open>HlsClient.decodeM3u8\<close>. The argument is the result of \<open>m3u8.DecodeFrom\<close>, \<open>None\<close> for an
  error. The result is the client after the call with the two values the function returns,
  or the panic of \<open>Variants[0]\<close> on a master playlist without variants.
\<close>

definition decodeM3u8 ::
  "HlsClient \<Rightarrow> Playlist option \<Rightarrow> error + (HlsClient \<times> int \<times> error option)" where
  "decodeM3u8 c decoded =
     (case decoded of
        None \<Rightarrow> Inr (c, Second, Some ErrLibrary)
      | Some (MasterPlaylist variants) \<Rightarrow>
          if length variants < 1 then Inl PanicIndexOutOfRange
          else Inr (c\<lparr>secondM3u8Url := variants ! 0\<rparr>, Millisecond, None)
      | Some (MediaPlaylist isClosed segments) \<Rightarrow>
          if isClosed then Inr (c, Second, Some ErrNotLiveM3u8File)
          else Inr (decodeM3u8_segments c segments, Second, None))"

text \<open>
  The part of \<open>HlsClient.Read\<close> under the mutex: the URL at the front of the playlist is
  taken off it; the URL is empty when there is none.
\<close>

definition Read_pop :: "HlsClient \<Rightarrow> string \<times> HlsClient" where
  "Read_pop c =
     (if length (playlist c) \<noteq> 0
      then (TsSegment.url (playlist c ! 0), c\<lparr>playlist := drop 1 (playlist c)\<rparr>)
      else ([], c))"

text \<open>
  A run of the HLS client, as far as the playlist and \<open>lastSeqId\<close> go: the poller calls
  \<open>decodeM3u8\<close> on what it downloaded, and in between \<open>Read\<close> takes segments off the queue.
\<close>

datatype hls_event = Poll "Playlist option" | Pop

fun hls_step :: "HlsClient \<Rightarrow> hls_event \<Rightarrow> error + HlsClient" where
  "hls_step c (Poll decoded) =
     (case decodeM3u8 c decoded of Inl e \<Rightarrow> Inl e | Inr (c', d, err) \<Rightarrow> Inr c')"
| "hls_step c Pop = Inr (snd (Read_pop c))"

fun hls_run :: "HlsClient \<Rightarrow> hls_event list \<Rightarrow> error + HlsClient" where
  "hls_run c [] = Inr c"
| "hls_run c (ev # evs) =
     (case hls_step c ev of Inl e \<Rightarrow> Inl e | Inr c' \<Rightarrow> hls_run c' evs)"

text \<open>
  A live media playlist from the sequence numbers and URIs of its segments, and what is
  looked at after a run: the sequence numbers in the queue and \<open>lastSeqId\<close>.
\<close>

definition media :: "(nat \<times> string) list \<Rightarrow> Playlist option" where
  "media segs =
     Some (MediaPlaylist False (map (\<lambda>(n, uri). Some \<lparr>SeqId = of_nat n, URI = uri\<rparr>) segs))"

definition queue_of :: "error + HlsClient \<Rightarrow> (uint64 list \<times> int) option" where
  "queue_of r =
     (case r of Inl e \<Rightarrow> None | Inr c \<Rightarrow> Some (map seqId (playlist c), sint (lastSeqId c)))"

section \<open>Dispatcher and requests\<close>

text \<open>\<open>path.Ext\<close>: the suffix from the last dot of the last element of the path.\<close>

fun Ext_scan :: "string \<Rightarrow> string \<Rightarrow> string" where
  "Ext_scan [] suffix = []"
| "Ext_scan (ch # front) suffix =
     (if ch = CHR ''/'' then []
      else if ch = CHR ''.'' then ch # suffix
      else Ext_scan front (ch # suffix))"

definition Ext :: "string \<Rightarrow> string" where
  "Ext path = Ext_scan (rev path) []"

text \<open>
  The fields of \<open>url.URL\<close> that the package reads. \<open>url.Parse\<close> itself is a parameter
  \<open>parse\<close> of the functions that call it.
\<close>

record URL =
  Scheme :: string
  Host :: string
  Path :: string

record Prober =
  Url :: string
  PlayerBufferTimeMs :: uint32
  ProbeTimeSec :: uint32
  Header :: "(string \<times> string) list option"

datatype Client = CFlvClient FlvClient | CHlsClient HlsClient

text \<open>
  \<open>Prober.Do\<close> up to the call of \<open>p.do\<close>: the client it builds, or the error it returns
  with a nil \<open>StreamInfo\<close>.
\<close>

definition Prober_Do_client :: "(string \<Rightarrow> error + URL) \<Rightarrow> Prober \<Rightarrow> error + Client" where
  "Prober_Do_client parse p =
     (case parse (Url p) of
        Inl err \<Rightarrow> Inl err
      | Inr u \<Rightarrow>
          if Scheme u = ''http'' \<or> Scheme u = ''https'' then
            (let ext = Ext (Path u) in
             if ext = ''.flv'' then
               Inr (CFlvClient \<lparr>FlvClient.url = Url p, header = None\<rparr>)
             else if ext = ''.m3u8'' then
               Inr (CHlsClient (newHlsClient (Url p) (Scheme u) (Host u)))
             else Inl ErrUnsupportedProtocol)
          else Inl ErrUnsupportedProtocol)"

text \<open>
  \<open>Prober.Do\<close>. \<open>run\<close> is \<open>p.do\<close>, which connects and plays; its result, a \<open>StreamInfo\<close>
  pointer and an error, is returned as it is.
\<close>

definition Prober_Do ::
  "(string \<Rightarrow> error + URL) \<Rightarrow> (Prober \<Rightarrow> Client \<Rightarrow> 'info option \<times> error option) \<Rightarrow> Prober
     \<Rightarrow> 'info option \<times> error option" where
  "Prober_Do parse run p =
     (case Prober_Do_client parse p of
        Inl err \<Rightarrow> (None, Some err)
      | Inr client \<Rightarrow> run p client)"

text \<open>
  An \<open>http.Request\<close>: method, parsed URL and header. \<open>http.NewRequest\<close> parses the URL and
  starts with an empty header; \<open>Header.Set\<close> stores the value under the canonical form of
  the key, which the parameter \<open>canon\<close> (\<open>textproto.CanonicalMIMEHeaderKey\<close>) gives.
\<close>

record Request =
  Method :: string
  URL :: URL
  Header :: "string \<rightharpoonup> string list"

definition NewRequest :: "(string \<Rightarrow> error + URL) \<Rightarrow> string \<Rightarrow> string \<Rightarrow> error + Request" where
  "NewRequest parse method rawurl =
     (case parse rawurl of
        Inl err \<Rightarrow> Inl err
      | Inr u \<Rightarrow> Inr \<lparr>Method = method, URL = u, Header = Map.empty\<rparr>)"

definition Header_Set :: "(string \<Rightarrow> string) \<Rightarrow> string \<times> string \<Rightarrow> Request \<Rightarrow> Request" where
  "Header_Set canon kv req = req\<lparr>Header := (Header req)(canon (fst kv) \<mapsto> [snd kv])\<rparr>"

definition newRequest ::
  "(string \<Rightarrow> error + URL) \<Rightarrow> (string \<Rightarrow> string) \<Rightarrow> string \<Rightarrow> (string \<times> string) list option
     \<Rightarrow> error + Request" where
  "newRequest parse canon rawurl hdr =
     (case NewRequest parse ''GET'' rawurl of
        Inl err \<Rightarrow> Inl err
      | Inr req \<Rightarrow>
          (case hdr of
             None \<Rightarrow> Inr req
           | Some kvs \<Rightarrow> Inr (fold (Header_Set canon) kvs req)))"

text \<open>
  The requests of the package: each is built by \<open>newRequest(url, nil)\<close>, in
  \<open>FlvClient.Connect\<close>, in \<open>HlsClient.Connect\<close>, in \<open>HlsClient.Read\<close> for the segment
  taken off the playlist, and in \<open>downloadM3u8\<close> for the playlist. \<open>Read\<close> builds no
  request (\<open>None\<close>) while its buffer is not empty, and returns \<open>ErrTryAgain\<close> before it builds
  one when the playlist is empty.
\<close>

definition FlvClient_Connect_request ::
  "(string \<Rightarrow> error + URL) \<Rightarrow> (string \<Rightarrow> string) \<Rightarrow> FlvClient \<Rightarrow> error + Request" where
  "FlvClient_Connect_request parse canon c = newRequest parse canon (FlvClient.url c) None"

definition HlsClient_Connect_request ::
  "(string \<Rightarrow> error + URL) \<Rightarrow> (string \<Rightarrow> string) \<Rightarrow> HlsClient \<Rightarrow> error + Request" where
  "HlsClient_Connect_request parse canon c = newRequest parse canon (url c) None"

definition HlsClient_Read_request ::
  "(string \<Rightarrow> error + URL) \<Rightarrow> (string \<Rightarrow> string) \<Rightarrow> HlsClient \<Rightarrow> (error + Request) option" where
  "HlsClient_Read_request parse canon c =
     (if length (buffer c) = 0 then
        if fst (Read_pop c) = [] then Some (Inl ErrTryAgain)
        else Some (newRequest parse canon (fst (Read_pop c)) None)
      else None)"

definition downloadM3u8_request ::
  "(string \<Rightarrow> error + URL) \<Rightarrow> (string \<Rightarrow> string) \<Rightarrow> HlsClient \<Rightarrow> error + Request" where
  "downloadM3u8_request parse canon c =
     newRequest parse canon (if secondM3u8Url c \<noteq> [] then secondM3u8Url c else url c) None"

text \<open>
  For the examples: what \<open>url.Parse\<close> gives for their URLs, a prober with a header map, and
  a \<open>p.do\<close> that hands back the client it was given. \<open>url.Parse\<close> refuses the URL \<open>:\<close>,
  which has no scheme in front of the colon, and the URL \<open>%zz\<close>, whose escape is not
  hexadecimal, each with an error of its own.
\<close>

definition example_parse :: "string \<Rightarrow> error + URL" where
  "example_parse rawurl =
     (if rawurl = ''http://h/a.flv'' then Inr \<lparr>Scheme = ''http'', Host = ''h'', Path = ''/a.flv''\<rparr>
      else if rawurl = ''https://h/live/a.m3u8''
        then Inr \<lparr>Scheme = ''https'', Host = ''h'', Path = ''/live/a.m3u8''\<rparr>
      else if rawurl = ''http://h/seg.ts'' then Inr \<lparr>Scheme = ''http'', Host = ''h'', Path = ''/seg.ts''\<rparr>
      else if rawurl = ''ftp://host/x.flv'' then Inr \<lparr>Scheme = ''ftp'', Host = ''host'', Path = ''/x.flv''\<rparr>
      else if rawurl = '':'' then Inl ErrLibrary
      else if rawurl = ''%zz'' then Inl ErrLibrary
      else Inl ErrLibrary)"

definition example_prober :: "string \<Rightarrow> Prober" where
  "example_prober rawurl =
     \<lparr>Url = rawurl, PlayerBufferTimeMs = 1000, ProbeTimeSec = 1,
      Header = Some [(''User-Agent'', ''probe'')]\<rparr>"

definition example_run :: "Prober \<Rightarrow> Client \<Rightarrow> Client option \<times> error option" where
  "example_run p client = (Some client, None)"

section \<open>Player\<close>

text \<open>
  \<open>float32\<close> arithmetic is a parameter of the player: the type \<open>'f\<close> of the values with the
  conversion from an integer, division, multiplication, and the conversion to \<open>int64\<close> that
  \<open>time.Duration(x)\<close> does.
\<close>

record 'f float32_ops =
  f32_of_int :: "int \<Rightarrow> 'f"
  f32_div :: "'f \<Rightarrow> 'f \<Rightarrow> 'f"
  f32_mul :: "'f \<Rightarrow> 'f \<Rightarrow> 'f"
  f32_to_int64 :: "'f \<Rightarrow> int"

text \<open>A \<open>time.Time\<close> is a number of nanoseconds.\<close>

record 'f StreamInfo =
  StartTime :: int
  IsConnected :: bool
  ErrCode :: int
  DnsTimeMs :: uint32
  TcpConnectTimeMs :: uint32
  TLSHandshakeTimeMs :: uint32
  TtfbMs :: uint32
  FirstVideoPktTimeMs :: uint32
  FirstAudioPktTimeMs :: uint32
  TotalLagTimeMs :: uint32
  TotalLagCount :: uint32
  VideoFps :: 'f
  LagRate :: 'f
  HttpCode :: int
  RemoteAddr :: string
  LocalAddr :: string

text \<open>
  The \<open>Player\<close> struct without its channel and context, and the state of \<open>Player.Do\<close>: the
  player with the local variables of the function. Durations are \<open>int64\<close> nanoseconds.
\<close>

record 'f Player =
  vqueue :: "AVPacket list"
  aqueue :: "AVPacket list"
  bufferTimeMs :: int
  info :: "'f StreamInfo"

record 'f Do_state = "'f Player" +
  frameDuration :: int
  audioFrameDuration :: int
  lagTime :: int
  startTime :: int
  startPlay :: bool
  hasVideo :: bool
  hasAudio :: bool
  rebuffer :: bool

definition Microsecond :: int where
  "Microsecond = 1000"

text \<open>The value of an \<open>int64\<close> computation: the result wraps around.\<close>

definition wrap64 :: "int \<Rightarrow> int" where
  "wrap64 x = sint (word_of_int x :: int64)"

text \<open>Go's integer division, which truncates towards zero.\<close>

definition quo :: "int \<Rightarrow> int \<Rightarrow> int" where
  "quo a b = (if (a < 0) = (b < 0) then \<bar>a\<bar> div \<bar>b\<bar> else - (\<bar>a\<bar> div \<bar>b\<bar>))"

text \<open>
  \<open>time.Since(t)\<close> at the time \<open>now\<close>, a duration that stops at the ends of \<open>int64\<close>, and
  \<open>uint32(time.Since(t).Milliseconds())\<close>.
\<close>

definition Since :: "int \<Rightarrow> int \<Rightarrow> int" where
  "Since now t = max (- (2 ^ 63)) (min (2 ^ 63 - 1) (now - t))"

definition since_ms :: "int \<Rightarrow> int \<Rightarrow> uint32" where
  "since_ms now t = word_of_int (quo (Since now t) 1000000)"

definition NewPlayer :: "uint32 \<Rightarrow> 'f StreamInfo \<Rightarrow> 'f Player" where
  "NewPlayer playerBufferTimeMs info' =
     \<lparr>vqueue = [], aqueue = [],
      bufferTimeMs = uint (if 30000 < playerBufferTimeMs then 30000 else playerBufferTimeMs),
      info = info'\<rparr>"

text \<open>The state in which \<open>Do\<close> enters its loop.\<close>

definition Do_start :: "'f Player \<Rightarrow> 'f Do_state" where
  "Do_start p =
     \<lparr>vqueue = vqueue p, aqueue = aqueue p, bufferTimeMs = bufferTimeMs p, info = info p,
      frameDuration = 0, audioFrameDuration = 0, lagTime = 0, startTime = 0,
      startPlay = False, hasVideo = False, hasAudio = False, rebuffer = False\<rparr>"

text \<open>
  The loop that estimates the frame rate, over \<open>p.vqueue[1:]\<close>: \<open>lastPts\<close> and
  \<open>totalDuration\<close> are \<open>int32\<close>, \<open>count\<close> is an \<open>int\<close>. The comparisons are signed and the
  subtraction wraps around.
\<close>

fun estimate_loop :: "int32 \<Rightarrow> int \<Rightarrow> int32 \<Rightarrow> AVPacket list \<Rightarrow> int \<times> int32" where
  "estimate_loop lastPts count totalDuration [] = (count, totalDuration)"
| "estimate_loop lastPts count totalDuration (pkt # rest) =
     (if sint lastPts < sint (pts pkt) \<and> sint (pts pkt - lastPts) < 100
      then estimate_loop (pts pkt) (count + 1) (totalDuration + (pts pkt - lastPts)) rest
      else estimate_loop (pts pkt) count totalDuration rest)"

definition estimate :: "AVPacket list \<Rightarrow> int \<times> int32" where
  "estimate q = estimate_loop (pts (q ! 0)) 0 0 (drop 1 q)"

definition estimate_fps :: "'f float32_ops \<Rightarrow> AVPacket list \<Rightarrow> 'f" where
  "estimate_fps ops q =
     (if snd (estimate q) \<noteq> 0
      then f32_mul ops
             (f32_div ops (f32_of_int ops (fst (estimate q))) (f32_of_int ops (sint (snd (estimate q)))))
             (f32_of_int ops 1000)
      else f32_of_int ops 30)"

text \<open>
  \<open>case pkt := <-p.ch\<close> at the time \<open>now\<close>. \<open>ticker.Reset\<close> panics on a duration that is
  not positive. The reslice \<open>p.vqueue[:pktNum]\<close> is modelled up to the length of the
  queue; a \<open>pktNum\<close> beyond it is the error \<open>PanicSliceBounds\<close> (Go panics beyond the
  capacity).
\<close>

definition Player_packet ::
  "'f float32_ops \<Rightarrow> int \<Rightarrow> AVPacket \<Rightarrow> 'f Do_state \<Rightarrow> error + 'f Do_state" where
  "Player_packet ops now pkt s =
     (if pktType pkt = PktVideo then
        let s1 = (if \<not> hasVideo s
                  then s\<lparr>hasVideo := True,
                         info := (info s)\<lparr>FirstVideoPktTimeMs := since_ms now (StartTime (info s))\<rparr>\<rparr>
                  else s);
            s2 = s1\<lparr>vqueue := vqueue s1 @ [pkt]\<rparr>
        in
        if \<not> startPlay s2 \<and> 60 \<le> length (vqueue s2) then
          let fps = estimate_fps ops (vqueue s2);
              fd = wrap64 (f32_to_int64 ops (f32_div ops (f32_of_int ops 1000000) fps) * Microsecond);
              s3 = s2\<lparr>info := (info s2)\<lparr>VideoFps := fps\<rparr>, frameDuration := fd\<rparr>;
              bufferTime = wrap64 (int (length (vqueue s3)) * fd)
          in
          if wrap64 (bufferTimeMs s3 * Millisecond) \<le> bufferTime then
            if fd \<le> 0 then Inl PanicTickerReset
            else
              let s4 = s3\<lparr>startPlay := True, startTime := now\<rparr> in
              if bufferTimeMs s4 \<noteq> 0 then
                let pktNum = unat (word_of_int (quo (wrap64 (bufferTimeMs s4 * Millisecond)) fd) :: uint32)
                in if length (vqueue s4) < pktNum then Inl PanicSliceBounds
                   else Inr (s4\<lparr>vqueue := take pktNum (vqueue s4)\<rparr>)
              else Inr s4
          else Inr s3
        else Inr s2
      else
        let s1 = (if \<not> hasAudio s
                  then s\<lparr>hasAudio := True,
                         info := (info s)\<lparr>FirstAudioPktTimeMs := since_ms now (StartTime (info s))\<rparr>\<rparr>
                  else s)
        in Inr (s1\<lparr>aqueue := aqueue s1 @ [pkt]\<rparr>))"

text \<open>
  The queue pointer of \<open>case <-ticker.C\<close>: \<open>&p.vqueue\<close>, \<open>&p.aqueue\<close> or nil, as the chain
  \<open>if hasVideo ... else if hasAudio\<close> sets it.
\<close>

datatype queue_ref = VQueue | AQueue

definition select_queue :: "'f Do_state \<Rightarrow> queue_ref option" where
  "select_queue s = (if hasVideo s then Some VQueue else if hasAudio s then Some AQueue else None)"

definition deref :: "queue_ref \<Rightarrow> 'f Do_state \<Rightarrow> AVPacket list" where
  "deref q s = (case q of VQueue \<Rightarrow> vqueue s | AQueue \<Rightarrow> aqueue s)"

definition assign :: "queue_ref \<Rightarrow> AVPacket list \<Rightarrow> 'f Do_state \<Rightarrow> 'f Do_state" where
  "assign q pkts s = (case q of VQueue \<Rightarrow> s\<lparr>vqueue := pkts\<rparr> | AQueue \<Rightarrow> s\<lparr>aqueue := pkts\<rparr>)"

text \<open>\<open>case <-ticker.C\<close> at the time \<open>now\<close>. \<open>len(*queue)\<close> on a nil pointer panics.\<close>

definition Player_tick :: "int \<Rightarrow> 'f Do_state \<Rightarrow> error + 'f Do_state" where
  "Player_tick now s =
     (if \<not> startPlay s then Inr s
      else
        let duratuon = (if hasVideo s then frameDuration s
                        else if hasAudio s then audioFrameDuration s else 0);
            s1 = (if hasVideo s then s\<lparr>aqueue := []\<rparr> else s)
        in
        case select_queue s of
          None \<Rightarrow> Inl PanicNilDereference
        | Some queue \<Rightarrow>
            let bufferTime = wrap64 (int (length (deref queue s1)) * duratuon);
                s2 = (if rebuffer s1 \<and> wrap64 (bufferTimeMs s1 * Millisecond) \<le> bufferTime
                      then s1\<lparr>rebuffer := False,
                              info := (info s1)\<lparr>TotalLagTimeMs :=
                                TotalLagTimeMs (info s1) + since_ms now (lagTime s1)\<rparr>\<rparr>
                      else s1)
            in
            if rebuffer s2 then Inr s2
            else if length (deref queue s2) \<noteq> 0
              then Inr (assign queue (drop 1 (deref queue s2)) s2)
            else Inr (s2\<lparr>rebuffer := True,
                         info := (info s2)\<lparr>TotalLagCount := TotalLagCount (info s2) + 1\<rparr>,
                         lagTime := now\<rparr>))"

text \<open>\<open>case <-p.ctx.Done()\<close> at the time \<open>now\<close>: the state with which \<open>Do\<close> returns.\<close>

definition Player_done :: "'f float32_ops \<Rightarrow> int \<Rightarrow> 'f Do_state \<Rightarrow> 'f Do_state" where
  "Player_done ops now s =
     (if \<not> startPlay s then s
      else
        let s1 = (if rebuffer s
                  then s\<lparr>info := (info s)\<lparr>TotalLagTimeMs :=
                           TotalLagTimeMs (info s) + since_ms now (lagTime s)\<rparr>\<rparr>
                  else s);
            totalPlayTimeMs = f32_of_int ops (quo (Since now (startTime s1)) 1000000)
        in s1\<lparr>info := (info s1)\<lparr>LagRate :=
                 f32_div ops (f32_of_int ops (uint (TotalLagTimeMs (info s1)))) totalPlayTimeMs\<rparr>\<rparr>)"

text \<open>
  The loop of \<open>Player.Do\<close> on the events that its \<open>select\<close> receives, each with the time
  at which it is taken. The loop ends at \<open>Done\<close>; without it, the result is the state in
  which the loop waits for the next event.
\<close>

datatype event = Packet AVPacket | Tick | Done

fun Player_Do_loop ::
  "'f float32_ops \<Rightarrow> 'f Do_state \<Rightarrow> (int \<times> event) list \<Rightarrow> error + 'f Do_state" where
  "Player_Do_loop ops s [] = Inr s"
| "Player_Do_loop ops s ((now, Done) # evs) = Inr (Player_done ops now s)"
| "Player_Do_loop ops s ((now, Packet pkt) # evs) =
     (case Player_packet ops now pkt s of
        Inl e \<Rightarrow> Inl e
      | Inr s' \<Rightarrow> Player_Do_loop ops s' evs)"
| "Player_Do_loop ops s ((now, Tick) # evs) =
     (case Player_tick now s of
        Inl e \<Rightarrow> Inl e
      | Inr s' \<Rightarrow> Player_Do_loop ops s' evs)"

definition Player_Do ::
  "'f float32_ops \<Rightarrow> 'f Player \<Rightarrow> (int \<times> event) list \<Rightarrow> error + 'f Do_state" where
  "Player_Do ops p evs = Player_Do_loop ops (Do_start p) evs"

definition is_video :: "int \<times> event \<Rightarrow> bool" where
  "is_video ev = (case snd ev of Packet pkt \<Rightarrow> pktType pkt = PktVideo | _ \<Rightarrow> False)"

text \<open>
  The consecutive differences of a list of PTS values, and the samples among them: the
  differences \<open>d\<close> with \<open>0 < d < 100\<close>.
\<close>

fun deltas :: "int list \<Rightarrow> int list" where
  "deltas (a # b # rest) = (b - a) # deltas (b # rest)"
| "deltas rest = []"

definition samples :: "int list \<Rightarrow> int list" where
  "samples ptss = filter (\<lambda>d. 0 < d \<and> d < 100) (deltas ptss)"

text \<open>
  For the examples: a video and an audio packet, arithmetic on rationals without rounding
  in the place of \<open>float32\<close>, a \<open>StreamInfo\<close> after a connect, the events of \<open>n\<close> video
  packets 33 ms apart, and the part of the outcome of a run that the examples look at.
\<close>

definition video :: "uint32 \<Rightarrow> AVPacket" where
  "video t = \<lparr>pktType = PktVideo, pts = t, keyframe = False\<rparr>"

definition audio :: "uint32 \<Rightarrow> AVPacket" where
  "audio t = \<lparr>pktType = PktAudio, pts = t, keyframe = False\<rparr>"

definition exact_ops :: "rat float32_ops" where
  "exact_ops =
     \<lparr>f32_of_int = of_int, f32_div = (\<lambda>a b. a / b), f32_mul = (\<lambda>a b. a * b),
      f32_to_int64 = (\<lambda>a. \<lfloor>a\<rfloor>)\<rparr>"

definition info0 :: "rat StreamInfo" where
  "info0 =
     \<lparr>StartTime = 0, IsConnected = True, ErrCode = 0, DnsTimeMs = 0, TcpConnectTimeMs = 0,
      TLSHandshakeTimeMs = 0, TtfbMs = 0, FirstVideoPktTimeMs = 0, FirstAudioPktTimeMs = 0,
      TotalLagTimeMs = 0, TotalLagCount = 0, VideoFps = 0, LagRate = 0, HttpCode = 200,
      RemoteAddr = [], LocalAddr = []\<rparr>"

definition frames :: "nat \<Rightarrow> (int \<times> event) list" where
  "frames n = map (\<lambda>i. (int i * 1000000, Packet (video (of_nat (i * 33))))) [0..<n]"

definition summary :: "error + 'f Do_state \<Rightarrow> (bool \<times> bool \<times> nat \<times> int) option" where
  "summary r =
     (case r of
        Inl e \<Rightarrow> None
      | Inr s \<Rightarrow> Some (startPlay s, hasVideo s, length (vqueue s), frameDuration s))"

section \<open>Properties of the FLV client\<close>

lemma uint_add_sint_mod:
  "uint ((a :: 32 word) + b) = (uint a + sint b) mod 2 ^ 32"
proof -
  have e: "a + b = word_of_int (uint a + sint b)"
    by (simp add: wi_hom_syms)
  show ?thesis
    by (subst e) (simp only: uint_word_of_int take_bit_eq_mod, simp)
qed

text \<open>
  C3. A video tag with timestamp \<open>T\<close> and composition time \<open>C\<close> (a signed 32-bit value) is
  turned into a video packet whose pts is \<open>(T + C) mod 2^32\<close> and whose keyframe flag says
  whether the frame type is KeyFrame; an audio tag with timestamp \<open>T\<close> and AAC packet type
  Raw is turned into a packet whose pts is \<open>T\<close>.
\<close>

theorem FlvClient_Read_pts:
  "(TagType t = TagTypeVideo \<and> Data t = PVideoData v \<longrightarrow>
      (\<exists>p. FlvClient_Read (Some t) = Inr p
         \<and> uint (pts p) = (uint (Timestamp t) + sint (CompositionTime v)) mod 2 ^ 32
         \<and> keyframe p = (FrameType v = FrameTypeKeyFrame)))
   \<and> (TagType t' = TagTypeAudio \<and> Data t' = PAudioData a
        \<and> AACPacketType a = AACPacketTypeRaw \<longrightarrow>
      (\<exists>p. FlvClient_Read (Some t') = Inr p \<and> pts p = Timestamp t'))"
  by (simp add: FlvClient_Read_def Let_def uint_add_sint_mod)

theorem FlvClient_Read_pts_witness:
  "(\<exists>p. FlvClient_Read (Some \<lparr>TagType = TagTypeVideo, Timestamp = 4294967295,
           Data = PVideoData \<lparr>FrameType = FrameTypeKeyFrame, CompositionTime = 41\<rparr>\<rparr>) = Inr p
      \<and> uint (pts p) = 40 \<and> keyframe p)
   \<and> (\<exists>p. FlvClient_Read (Some \<lparr>TagType = TagTypeAudio, Timestamp = 23,
           Data = PAudioData \<lparr>AACPacketType = AACPacketTypeRaw\<rparr>\<rparr>) = Inr p
      \<and> pts p = 23)"
  using FlvClient_Read_pts
    [of "\<lparr>TagType = TagTypeVideo, Timestamp = 4294967295,
           Data = PVideoData \<lparr>FrameType = FrameTypeKeyFrame, CompositionTime = 41\<rparr>\<rparr>"
        "\<lparr>FrameType = FrameTypeKeyFrame, CompositionTime = 41\<rparr>"
        "\<lparr>TagType = TagTypeAudio, Timestamp = 23,
           Data = PAudioData \<lparr>AACPacketType = AACPacketTypeRaw\<rparr>\<rparr>"
        "\<lparr>AACPacketType = AACPacketTypeRaw\<rparr>"]
  by simp

text \<open>
  C10. Every audio tag that is turned into a packet (AAC packet type Raw) gives a packet
  whose keyframe flag is false.
\<close>

theorem FlvClient_Read_audio_keyframe:
  "TagType t = TagTypeAudio \<Longrightarrow> FlvClient_Read (Some t) = Inr p \<Longrightarrow> \<not> keyframe p"
  by (auto simp: FlvClient_Read_def Let_def split: TagData.splits if_splits)

theorem FlvClient_Read_audio_keyframe_witness:
  "TagType \<lparr>TagType = TagTypeAudio, Timestamp = 23,
       Data = PAudioData \<lparr>AACPacketType = AACPacketTypeRaw\<rparr>\<rparr> = TagTypeAudio
   \<and> FlvClient_Read (Some \<lparr>TagType = TagTypeAudio, Timestamp = 23,
       Data = PAudioData \<lparr>AACPacketType = AACPacketTypeRaw\<rparr>\<rparr>)
     = Inr \<lparr>pktType = PktAudio, pts = 23, keyframe = False\<rparr>
   \<and> \<not> keyframe \<lparr>pktType = PktAudio, pts = 23, keyframe = False\<rparr>"
  using FlvClient_Read_audio_keyframe
    [of "\<lparr>TagType = TagTypeAudio, Timestamp = 23,
           Data = PAudioData \<lparr>AACPacketType = AACPacketTypeRaw\<rparr>\<rparr>"
        "\<lparr>pktType = PktAudio, pts = 23, keyframe = False\<rparr>"]
  by (simp add: FlvClient_Read_def)

section \<open>Properties of the PES decoder\<close>

text \<open>
  The value of the PTS expression as a number: each field is read off its byte, the fields do
  not overlap, so that \<open>OR\<close> adds them, and the shift by 30 keeps two of the three top bits.
\<close>

lemma unat_byte_less: "unat (b :: byte) < 256"
  using unsigned_less [of b, where ?'a = nat] by simp

lemma unat_ucast_byte: "unat (ucast (b :: byte) :: uint32) = unat b"
proof -
  have "unat b < 2 ^ 32" using unat_byte_less [of b] by simp
  then show ?thesis by (simp add: unsigned_ucast_eq take_bit_nat_eq_self)
qed

lemma unat_drop_bit_1: "unat (drop_bit 1 (b::byte)) = unat b div 2"
  by (simp add: unat_drop_bit_eq drop_bit_eq_div unat_div)

lemma unat_and_0x7f: "unat ((x :: uint32) AND 0x7f) = unat x mod 128"
proof -
  have "(0x7f :: uint32) = mask 7" by (simp add: mask_eq_exp_minus_1)
  then have "x AND 0x7f = take_bit 7 x" by (simp add: take_bit_eq_mask)
  then show ?thesis by (simp add: unsigned_take_bit_eq take_bit_eq_mod unat_mod)
qed

lemma unat_and_0x07: "unat ((x :: byte) AND 0x07) = unat x mod 8"
proof -
  have "(0x07 :: byte) = mask 3" by (simp add: mask_eq_exp_minus_1)
  then have "x AND 0x07 = take_bit 3 x" by (simp add: take_bit_eq_mask)
  then show ?thesis by (simp add: unsigned_take_bit_eq take_bit_eq_mod unat_mod)
qed

lemma unat_push_bit_32: "unat (push_bit n (w :: uint32)) = (unat w * 2 ^ n) mod 2 ^ 32"
  by (simp only: unsigned_push_bit_eq) (simp add: take_bit_eq_mod push_bit_eq_mult)

lemma pts_field1: "unat (push_bit 22 (ucast b1 :: uint32)) = unat (b1::byte) * 2 ^ 22"
  using unat_byte_less [of b1] by (simp add: unat_push_bit_32 unat_ucast_byte)

lemma or_shift_add:
  assumes "a < 2 ^ n" shows "b * 2 ^ n OR a = b * 2 ^ n + (a::nat)"
proof -
  have "\<not> bit a k" if "n \<le> k" for k
  proof -
    have "(2::nat) ^ n \<le> 2 ^ k" using that by simp
    with assms have "a < 2 ^ k" by (rule less_le_trans)
    then show ?thesis by (simp add: bit_iff_odd)
  qed
  then have "\<not> bit (push_bit n b) k \<or> \<not> bit a k" for k
    by (auto simp add: bit_push_bit_iff)
  then have "push_bit n b + a = push_bit n b OR a"
    by (rule disjunctive_add)
  then show ?thesis by (simp add: push_bit_eq_mult)
qed

lemma shift30_mod: "(f * 2 ^ 30) mod 2 ^ 32 = (f mod 4) * 2 ^ (30::nat)" for f :: nat
proof -
  have "(f * 2 ^ 30) mod (4 * 2 ^ 30) = (f mod 4) * 2 ^ (30::nat)"
    by (rule mult_mod_left [symmetric])
  then show ?thesis by simp
qed

lemma pts_field0: "unat (push_bit 30 (ucast (drop_bit 1 (b0::byte) AND 0x07) :: uint32))
    = (unat b0 div 2 mod 8 mod 4) * 2 ^ 30"
  by (simp only: unat_push_bit_32 unat_ucast_byte unat_and_0x07 unat_drop_bit_1 shift30_mod)

lemma pts_field2: "unat (push_bit 15 ((ucast (drop_bit 1 (b2::byte)) :: uint32) AND 0x7f))
    = (unat b2 div 2 mod 128) * 2 ^ 15"
proof -
  have "unat b2 div 2 mod 128 < 128" by simp
  then have "(unat b2 div 2 mod 128) * 2 ^ 15 < 128 * 2 ^ 15" by simp
  then have "(unat b2 div 2 mod 128) * 2 ^ 15 < 2 ^ 32" by simp
  then show ?thesis
    by (simp only: unat_push_bit_32 unat_ucast_byte unat_and_0x7f unat_drop_bit_1 mod_less)
qed

lemma pts_field3: "unat (push_bit 7 (ucast b3 :: uint32)) = unat (b3::byte) * 2 ^ 7"
  using unat_byte_less [of b3] by (simp add: unat_push_bit_32 unat_ucast_byte)

lemma pts_field4: "unat (ucast (drop_bit 1 (b4::byte)) :: uint32) = unat b4 div 2"
  by (simp only: unat_ucast_byte unat_drop_bit_1)

lemma decodePES_pts_list:
  "decodePES_pts [b0, b1, b2, b3, b4] =
     (push_bit 30 (ucast (drop_bit 1 b0 AND 0x07) :: uint32)
      OR push_bit 22 (ucast b1 :: uint32)
      OR push_bit 15 ((ucast (drop_bit 1 b2) :: uint32) AND 0x7f)
      OR push_bit 7 (ucast b3 :: uint32)
      OR (ucast (drop_bit 1 b4) :: uint32))"
  by (simp add: decodePES_pts_def)

lemma unat_decodePES_pts:
  "unat (decodePES_pts [b0, b1, b2, b3, b4]) = PTS33 b0 b1 b2 b3 b4 mod 2 ^ 32"
proof -
  define f0 where "f0 = unat b0 div 2 mod 8"
  define f1 where "f1 = unat b1"
  define f2 where "f2 = unat b2 div 2 mod 128"
  define f3 where "f3 = unat b3"
  define f4 where "f4 = unat b4 div 2"
  have b1: "f1 < 256" using unat_byte_less [of b1] by (simp add: f1_def)
  have b3: "f3 < 256" using unat_byte_less [of b3] by (simp add: f3_def)
  have b4: "f4 < 128" using unat_byte_less [of b4] by (simp add: f4_def)
  have b2: "f2 < 128" by (simp add: f2_def)
  have e: "unat (decodePES_pts [b0, b1, b2, b3, b4])
      = (f0 mod 4) * 2 ^ 30 OR (f1 * 2 ^ 22 OR (f2 * 2 ^ 15 OR (f3 * 2 ^ 7 OR f4)))"
    by (simp only: decodePES_pts_list unsigned_or_eq pts_field0 pts_field1 pts_field2
        pts_field3 pts_field4 or.assoc f0_def f1_def f2_def f3_def f4_def)
  have r4: "f3 * 2 ^ 7 OR f4 = f3 * 2 ^ 7 + f4"
    using b4 by (intro or_shift_add) simp
  have r3: "f2 * 2 ^ 15 OR (f3 * 2 ^ 7 + f4) = f2 * 2 ^ 15 + (f3 * 2 ^ 7 + f4)"
    using b3 b4 by (intro or_shift_add) simp
  have r2: "f1 * 2 ^ 22 OR (f2 * 2 ^ 15 + (f3 * 2 ^ 7 + f4))
      = f1 * 2 ^ 22 + (f2 * 2 ^ 15 + (f3 * 2 ^ 7 + f4))"
    using b2 b3 b4 by (intro or_shift_add) simp
  define R where "R = f1 * 2 ^ 22 + (f2 * 2 ^ 15 + (f3 * 2 ^ 7 + f4))"
  have R: "R < 2 ^ 30" using b1 b2 b3 b4 by (simp add: R_def)
  have r1: "(f0 mod 4) * 2 ^ 30 OR R = (f0 mod 4) * 2 ^ 30 + R"
    using R by (rule or_shift_add)
  have lt: "(f0 mod 4) * 2 ^ 30 + R < 2 ^ 32"
  proof -
    have "f0 mod 4 \<le> 3" by simp
    then have "(f0 mod 4) * 2 ^ 30 \<le> 3 * 2 ^ 30" by (rule mult_le_mono1)
    with R show ?thesis by simp
  qed
  have "(f0 * 2 ^ 30 + R) mod 2 ^ 32 = ((f0 * 2 ^ 30) mod 2 ^ 32 + R) mod 2 ^ 32"
    by (simp only: mod_add_left_eq)
  also have "\<dots> = ((f0 mod 4) * 2 ^ 30 + R) mod 2 ^ 32"
    by (simp only: shift30_mod)
  also have "\<dots> = (f0 mod 4) * 2 ^ 30 + R"
    using lt by (rule mod_less)
  finally have m: "(f0 * 2 ^ 30 + R) mod 2 ^ 32 = (f0 mod 4) * 2 ^ 30 + R" .
  have p: "PTS33 b0 b1 b2 b3 b4 = f0 * 2 ^ 30 + R"
    by (simp add: PTS33_def R_def f0_def f1_def f2_def f3_def f4_def)
  show ?thesis
    by (simp only: e r4 r3 r2 r1 p m R_def [symmetric])
qed

lemma decodePES_pts_nth:
  "decodePES_pts d = decodePES_pts [d ! 0, d ! 1, d ! 2, d ! 3, d ! 4]"
  by (simp add: decodePES_pts_def)

text \<open>
  What \<open>decodePES\<close> returns when it returns a packet: the flags are 2 or 3, the high nibble
  of the first PTS byte is the flag value, and \<open>pts\<close> is the low 32 bits of the 33-bit PTS,
  divided by 90.
\<close>

lemma decodePES_result:
  assumes "decodePES data ty = Inr p"
  shows "unat (pts p)
           = PTS33 (data ! 9) (data ! 10) (data ! 11) (data ! 12) (data ! 13) mod 2 ^ 32 div 90"
    and "keyframe p" and "pktType p = ty"
    and "drop_bit 6 ((data ! 7) AND 0xc0) = drop_bit 4 ((data ! 9) AND 0xf0)"
    and "drop_bit 6 ((data ! 7) AND 0xc0) = 2 \<or> drop_bit 6 ((data ! 7) AND 0xc0) = 3"
proof -
  from assms have len: "14 \<le> length data"
    by (simp add: decodePES_def Let_def split: if_splits)
  from assms len have p: "p = \<lparr>pktType = ty, pts = decodePES_pts (drop 9 data) div 90,
      keyframe = True\<rparr>"
    by (auto simp add: decodePES_def Let_def split: if_splits)
  have "decodePES_pts (drop 9 data)
      = decodePES_pts [data ! 9, data ! 10, data ! 11, data ! 12, data ! 13]"
    using len by (subst decodePES_pts_nth) simp
  then show "unat (pts p)
      = PTS33 (data ! 9) (data ! 10) (data ! 11) (data ! 12) (data ! 13) mod 2 ^ 32 div 90"
    by (simp add: p unat_div unat_decodePES_pts)
  show "keyframe p" and "pktType p = ty"
    by (simp_all add: p)
  from assms len show "drop_bit 6 ((data ! 7) AND 0xc0) = drop_bit 4 ((data ! 9) AND 0xf0)"
    by (auto simp add: decodePES_def Let_def split: if_splits)
  from assms len show "drop_bit 6 ((data ! 7) AND 0xc0) = 2 \<or> drop_bit 6 ((data ! 7) AND 0xc0) = 3"
    by (auto simp add: decodePES_def Let_def split: if_splits)
qed

text \<open>A wrong high nibble in the first PTS byte is refused with \<open>ErrInvaildPESHeader\<close>.\<close>

lemma decodePES_nibble_mismatch:
  "length ptsBytes = 5 \<Longrightarrow> drop_bit 6 (flags AND 0xc0) = 2 \<or> drop_bit 6 (flags AND 0xc0) = 3 \<Longrightarrow>
   drop_bit 4 ((ptsBytes ! 0) AND 0xf0) \<noteq> drop_bit 6 (flags AND 0xc0) \<Longrightarrow>
   decodePES (pes_packet flags ptsBytes) ty = Inl ErrInvaildPESHeader"
  by (auto simp add: decodePES_def pes_packet_def Let_def)

text \<open>
  PTS bytes that encode 90000, one second at 90 kHz, with \<open>PTS_DTS_flags = 2\<close> give a
  packet with \<open>pts = 1000\<close>.
\<close>

lemma decodePES_90000:
  "decodePES (pes_packet 0x80 [0x21, 0x00, 0x05, 0xBF, 0x21]) PktVideo
     = Inr \<lparr>pktType = PktVideo, pts = 1000, keyframe = True\<rparr>
   \<and> PTS33 0x21 0x00 0x05 0xBF 0x21 = 90000"
  by (simp add: decodePES_def pes_packet_def decodePES_pts_def PTS33_def Let_def)

text \<open>
  C1. The PTS is put together in \<open>uint32\<close>, so the top bit of the three bits \<open>PTS [32..30]\<close>
  is shifted out: for the PTS bytes of \<open>2^32\<close> (with \<open>PTS_DTS_flags = 2\<close> and a first byte
  whose high nibble is 2) the packet has \<open>pts = 0\<close>, not \<open>2^32 div 90 = 47721858\<close>.
\<close>

theorem decodePES_drops_PTS_bit_32:
  "decodePES (pes_packet 0x80 [0x29, 0x00, 0x01, 0x00, 0x01]) PktVideo
     = Inr \<lparr>pktType = PktVideo, pts = 0, keyframe = True\<rparr>
   \<and> PTS33 0x29 0x00 0x01 0x00 0x01 = 2 ^ 32
   \<and> PTS33 0x29 0x00 0x01 0x00 0x01 div 90 = 47721858"
  by (simp add: decodePES_def pes_packet_def decodePES_pts_def PTS33_def Let_def)

section \<open>Properties of the PAT and PMT parsers\<close>

lemma unat_and_0x0f: "unat ((b :: byte) AND 0x0f) = unat b mod 16"
proof -
  have "(0x0f :: byte) = mask 4" by (simp add: mask_eq_exp_minus_1)
  then have "b AND 0x0f = take_bit 4 b" by (simp add: take_bit_eq_mask)
  then show ?thesis by (simp add: unsigned_take_bit_eq take_bit_eq_mod unat_mod)
qed

text \<open>\<open>decodePAT\<close> reads all twelve bits of the section length.\<close>

lemma decodePAT_sectionLength_12:
  "unat (decodePAT_sectionLength data) = length12 (data ! 1) (data ! 2)"
proof -
  have lo: "unat (data ! 2) < 2 ^ 8" using unat_byte_less [of "data ! 2"] by simp
  have "unat (data ! 1) mod 16 < 16" by simp
  then have "(unat (data ! 1) mod 16) * 2 ^ 8 < 16 * 2 ^ 8" by simp
  then have hi: "(unat (data ! 1) mod 16) * 2 ^ 8 < 2 ^ 32" by simp
  have "unat (decodePAT_sectionLength data)
      = (unat (data ! 1) mod 16) * 2 ^ 8 OR unat (data ! 2)"
    using hi by (simp only: decodePAT_sectionLength_def unsigned_or_eq unat_push_bit_32
        unat_ucast_byte unat_and_0x0f mod_less)
  also have "\<dots> = (unat (data ! 1) mod 16) * 2 ^ 8 + unat (data ! 2)"
    using lo by (rule or_shift_add)
  finally show ?thesis by (simp add: length12_def)
qed

text \<open>In \<open>decodePMT\<close> the shifted byte is always zero: both lengths are their low byte.\<close>

lemma decodePMT_sectionLength_8: "decodePMT_sectionLength data = ucast (data ! 2)"
  by (simp add: decodePMT_sectionLength_def)

lemma decodePMT_programInfoLength_8: "decodePMT_programInfoLength data = ucast (data ! 11)"
  by (simp add: decodePMT_programInfoLength_def)

text \<open>The stored PMT changes only to a stream list that is not empty.\<close>

lemma decodePMT_replaces_nonempty:
  "decodePMT c data = Inr c' \<Longrightarrow>
   c' = c \<or> (pmtStreams (pmt c') \<noteq> [] \<and> c' = c\<lparr>pmt := pmt c'\<rparr>)"
  by (auto simp add: decodePMT_def split: if_splits sum.splits)

text \<open>
  C4. \<open>decodePMT\<close> shifts the masked byte before it widens it, so the high four bits of both
  lengths are lost. For a section whose length bytes are \<open>0xB1 0x00\<close> (a section length of
  256) it reads 0, does not look at the stream entry that follows, and leaves the stored PMT
  as it was, where the loop run with 256 finds the H.264 stream. For program info length
  bytes \<open>0xF1 0x00\<close> it reads 0 as well.
\<close>

theorem decodePMT_loses_high_length_bits:
  "decodePMT_sectionLength (pmt_section 0xB1 0x00 0xF0 0x00 h264_entry) = 0
   \<and> length12 0xB1 0x00 = 256
   \<and> decodePMT (newHlsClient [] [] []) (pmt_section 0xB1 0x00 0xF0 0x00 h264_entry)
       = Inr (newHlsClient [] [] [])
   \<and> decodePMT_loop 0 256 h264_entry []
       = Inr [\<lparr>elementaryPid = 0x100, streamType = STREAM_TYPE_VIDEO_H264\<rparr>]
   \<and> decodePMT_programInfoLength (pmt_section 0xB0 0x17 0xF1 0x00 h264_entry) = 0
   \<and> length12 0xF1 0x00 = 256"
  by (simp add: decodePMT_def decodePMT_sectionLength_def decodePMT_programInfoLength_def
      pmt_section_def h264_entry_def decodePMT_loop.simps length12_def
      STREAM_TYPE_VIDEO_H264_def)

section \<open>Properties of the playlist poller\<close>

lemma decodeM3u8_segments_lastSeqId:
  "sint (lastSeqId c) \<le> sint (lastSeqId (decodeM3u8_segments c segments))"
proof (induction c segments rule: decodeM3u8_segments.induct)
  case (3 c segment rest)
  then show ?case
    by (auto simp add: Let_def)
qed simp_all

lemma decodeM3u8_lastSeqId:
  "decodeM3u8 c decoded = Inr (c', d, err) \<Longrightarrow> sint (lastSeqId c) \<le> sint (lastSeqId c')"
  by (auto simp add: decodeM3u8_def decodeM3u8_segments_lastSeqId
      split: option.splits Playlist.splits if_splits)

lemma hls_step_lastSeqId:
  "hls_step c ev = Inr c' \<Longrightarrow> sint (lastSeqId c) \<le> sint (lastSeqId c')"
  by (cases ev) (auto simp add: Read_pop_def dest: decodeM3u8_lastSeqId split: sum.splits)

lemma hls_run_lastSeqId:
  "hls_run c evs = Inr c' \<Longrightarrow> sint (lastSeqId c) \<le> sint (lastSeqId c')"
proof (induction evs arbitrary: c)
  case Nil
  then show ?case by simp
next
  case (Cons ev evs)
  then obtain c1 where s: "hls_step c ev = Inr c1" and r: "hls_run c1 evs = Inr c'"
    by (auto split: sum.splits)
  from s have "sint (lastSeqId c) \<le> sint (lastSeqId c1)" by (rule hls_step_lastSeqId)
  moreover from r have "sint (lastSeqId c1) \<le> sint (lastSeqId c')" by (rule Cons.IH)
  ultimately show ?case by simp
qed

text \<open>
  C5. No call of \<open>decodeM3u8\<close> makes \<open>lastSeqId\<close> smaller, and so no run of the HLS client
  does: polls of any playlists, failed polls and reads between them.
\<close>

theorem decodeM3u8_lastSeqId_monotone:
  "(decodeM3u8 c decoded = Inr (c', d, err) \<longrightarrow> sint (lastSeqId c) \<le> sint (lastSeqId c'))
   \<and> (hls_run c evs = Inr c'' \<longrightarrow> sint (lastSeqId c) \<le> sint (lastSeqId c''))"
  using decodeM3u8_lastSeqId hls_run_lastSeqId by blast

theorem decodeM3u8_lastSeqId_monotone_witness:
  "\<exists>c' c''.
     decodeM3u8 (newHlsClient ''http://h/live/a.m3u8'' ''http'' ''h'')
       (media [(5, ''seg5.ts''), (6, ''seg6.ts'')]) = Inr (c', Second, None)
     \<and> hls_run (newHlsClient ''http://h/live/a.m3u8'' ''http'' ''h'')
       [Poll (media [(5, ''seg5.ts''), (6, ''seg6.ts'')]), Pop, Poll None,
        Poll (media [(7, ''seg7.ts''), (8, ''seg8.ts'')])] = Inr c''
     \<and> sint (lastSeqId (newHlsClient ''http://h/live/a.m3u8'' ''http'' ''h'')) = - 1
     \<and> sint (lastSeqId c') = 6 \<and> sint (lastSeqId c'') = 8
     \<and> sint (lastSeqId (newHlsClient ''http://h/live/a.m3u8'' ''http'' ''h''))
         \<le> sint (lastSeqId c')
     \<and> sint (lastSeqId (newHlsClient ''http://h/live/a.m3u8'' ''http'' ''h''))
         \<le> sint (lastSeqId c'')"
proof -
  let ?c = "newHlsClient ''http://h/live/a.m3u8'' ''http'' ''h''"
  let ?p = "media [(5, ''seg5.ts''), (6, ''seg6.ts'')]"
  let ?evs = "[Poll ?p, Pop, Poll None, Poll (media [(7, ''seg7.ts''), (8, ''seg8.ts'')])]"
  obtain c' where 1: "decodeM3u8 ?c ?p = Inr (c', Second, None)" and 2: "sint (lastSeqId c') = 6"
    by (simp add: media_def decodeM3u8_def newHlsClient_def HasPrefix_def)
  obtain c'' where 3: "hls_run ?c ?evs = Inr c''" and 4: "sint (lastSeqId c'') = 8"
    by (simp add: media_def decodeM3u8_def newHlsClient_def HasPrefix_def Read_pop_def)
  have 5: "sint (lastSeqId ?c) = - 1"
    by (simp add: newHlsClient_def)
  from decodeM3u8_lastSeqId_monotone [of ?c ?p c' Second None ?evs c''] 1 2 3 4 5
  show ?thesis by blast
qed

text \<open>
  C6. After the polls \<open>[5,6,7]\<close> and \<open>[6,7,8,9]\<close> the queue is not \<open>[5,6,7,8,9]\<close>. With
  relative URIs \<open>lastSeqId\<close> is 7 after the first poll, the loop of the second poll breaks at
  its first segment, 6, and the segments 8 and 9 are not queued. With absolute URIs
  \<open>lastSeqId\<close> stays at -1 and the second poll queues 6 and 7 again.
\<close>

theorem decodeM3u8_second_poll:
  "queue_of (hls_run (newHlsClient ''http://h/live/a.m3u8'' ''http'' ''h'')
      [Poll (media [(5, ''seg5.ts''), (6, ''seg6.ts''), (7, ''seg7.ts'')]),
       Poll (media [(6, ''seg6.ts''), (7, ''seg7.ts''), (8, ''seg8.ts''), (9, ''seg9.ts'')])])
     = Some ([5, 6, 7], 7)
   \<and> queue_of (hls_run (newHlsClient ''http://h/live/a.m3u8'' ''http'' ''h'')
      [Poll (media [(5, ''http://cdn/seg5.ts''), (6, ''http://cdn/seg6.ts''),
                    (7, ''http://cdn/seg7.ts'')]),
       Poll (media [(6, ''http://cdn/seg6.ts''), (7, ''http://cdn/seg7.ts''),
                    (8, ''http://cdn/seg8.ts''), (9, ''http://cdn/seg9.ts'')])])
     = Some ([5, 6, 7, 6, 7, 8, 9], - 1)"
  by (simp add: queue_of_def media_def decodeM3u8_def newHlsClient_def HasPrefix_def)

section \<open>Properties of the dispatcher and of the requests\<close>

lemma Prober_Do_client_cases:
  assumes "parse (Url p) = Inr u"
  shows "Prober_Do_client parse p =
     (if (Scheme u = ''http'' \<or> Scheme u = ''https'') \<and> Ext (Path u) = ''.flv''
        then Inr (CFlvClient \<lparr>FlvClient.url = Url p, header = None\<rparr>)
      else if (Scheme u = ''http'' \<or> Scheme u = ''https'') \<and> Ext (Path u) = ''.m3u8''
        then Inr (CHlsClient (newHlsClient (Url p) (Scheme u) (Host u)))
      else Inl ErrUnsupportedProtocol)"
  using assms by (simp add: Prober_Do_client_def Let_def)

text \<open>
  When \<open>url.Parse\<close> fails, \<open>Prober.Do\<close> returns the error of the parser with a nil
  \<open>StreamInfo\<close>, and no client is built.
\<close>

lemma Prober_Do_parse_error:
  assumes "parse (Url p) = Inl err"
  shows "Prober_Do_client parse p = Inl err" and "Prober_Do parse run p = (None, Some err)"
  using assms by (simp_all add: Prober_Do_def Prober_Do_client_def)

text \<open>
  The URL \<open>:\<close> has a scheme other than http and https, namely none, and \<open>Prober.Do\<close>
  does not return \<open>ErrUnsupportedProtocol\<close> for it: \<open>url.Parse\<close> fails, and its error is
  what \<open>Do\<close> returns.
\<close>

theorem Prober_Do_unparsed_url:
  "Prober_Do example_parse example_run (example_prober '':'') = (None, Some ErrLibrary)
   \<and> Prober_Do example_parse example_run (example_prober '':'')
       \<noteq> (None, Some ErrUnsupportedProtocol)
   \<and> Prober_Do_client example_parse (example_prober '':'') = Inl ErrLibrary"
  by (simp add: Prober_Do_def Prober_Do_client_def example_parse_def example_prober_def)

text \<open>
  C7. For every input URL: when \<open>url.Parse\<close> refuses it, \<open>Prober.Do\<close> returns the error
  of the parser and a nil \<open>StreamInfo\<close>. When \<open>url.Parse\<close> accepts it, \<open>Prober.Do\<close> hands
  a client to \<open>p.do\<close> and returns its result exactly when the scheme is http or https and
  the extension of the path is \<open>.flv\<close> (an FLV client) or \<open>.m3u8\<close> (an HLS client with the
  scheme and host of the URL and \<open>lastSeqId = -1\<close>); for every other scheme or extension it
  returns \<open>ErrUnsupportedProtocol\<close> with a nil \<open>StreamInfo\<close>.
\<close>

theorem Prober_Do_dispatch:
  "(parse (Url p) = Inl err \<longrightarrow>
      Prober_Do_client parse p = Inl err \<and> Prober_Do parse run p = (None, Some err))
   \<and> (parse (Url p) = Inr u \<longrightarrow>
       ((Scheme u = ''http'' \<or> Scheme u = ''https'') \<and> Ext (Path u) = ''.flv'' \<longrightarrow>
            Prober_Do parse run p = run p (CFlvClient \<lparr>FlvClient.url = Url p, header = None\<rparr>))
       \<and> ((Scheme u = ''http'' \<or> Scheme u = ''https'') \<and> Ext (Path u) = ''.m3u8'' \<longrightarrow>
            (\<exists>c. Prober_Do parse run p = run p (CHlsClient c)
               \<and> url c = Url p \<and> scheme c = Scheme u \<and> host c = Host u
               \<and> lastSeqId c = - 1 \<and> playlist c = []))
       \<and> (\<not> ((Scheme u = ''http'' \<or> Scheme u = ''https'')
               \<and> (Ext (Path u) = ''.flv'' \<or> Ext (Path u) = ''.m3u8'')) \<longrightarrow>
            Prober_Do_client parse p = Inl ErrUnsupportedProtocol
            \<and> Prober_Do parse run p = (None, Some ErrUnsupportedProtocol))
       \<and> ((\<exists>client. Prober_Do_client parse p = Inr client) \<longrightarrow>
            (Scheme u = ''http'' \<or> Scheme u = ''https'')
            \<and> (Ext (Path u) = ''.flv'' \<or> Ext (Path u) = ''.m3u8'')))"
proof (intro conjI impI)
  assume "parse (Url p) = Inl err"
  then show "Prober_Do_client parse p = Inl err" and "Prober_Do parse run p = (None, Some err)"
    by (rule Prober_Do_parse_error)+
next
  assume u: "parse (Url p) = Inr u"
  {
    assume "(Scheme u = ''http'' \<or> Scheme u = ''https'') \<and> Ext (Path u) = ''.flv''"
    with u show "Prober_Do parse run p
        = run p (CFlvClient \<lparr>FlvClient.url = Url p, header = None\<rparr>)"
      by (simp add: Prober_Do_def Prober_Do_client_cases)
  next
    assume "(Scheme u = ''http'' \<or> Scheme u = ''https'') \<and> Ext (Path u) = ''.m3u8''"
    with u show "\<exists>c. Prober_Do parse run p = run p (CHlsClient c)
        \<and> url c = Url p \<and> scheme c = Scheme u \<and> host c = Host u
        \<and> lastSeqId c = - 1 \<and> playlist c = []"
      by (auto simp add: Prober_Do_def Prober_Do_client_cases newHlsClient_def)
  next
    assume n: "\<not> ((Scheme u = ''http'' \<or> Scheme u = ''https'')
        \<and> (Ext (Path u) = ''.flv'' \<or> Ext (Path u) = ''.m3u8''))"
    with u show "Prober_Do_client parse p = Inl ErrUnsupportedProtocol"
      by (auto simp add: Prober_Do_client_cases)
    with u show "Prober_Do parse run p = (None, Some ErrUnsupportedProtocol)"
      by (simp add: Prober_Do_def)
  next
    assume "\<exists>client. Prober_Do_client parse p = Inr client"
    with u show "Scheme u = ''http'' \<or> Scheme u = ''https''"
      and "Ext (Path u) = ''.flv'' \<or> Ext (Path u) = ''.m3u8''"
      by (auto simp add: Prober_Do_client_cases split: if_splits)
  }
qed

theorem Prober_Do_dispatch_witness:
  "Prober_Do example_parse (\<lambda>p client. (Some client, None)) (example_prober ''http://h/a.flv'')
     = (Some (CFlvClient \<lparr>FlvClient.url = ''http://h/a.flv'', header = None\<rparr>), None)
   \<and> (\<exists>c. Prober_Do example_parse (\<lambda>p client. (Some client, None))
             (example_prober ''https://h/live/a.m3u8'') = (Some (CHlsClient c), None)
          \<and> scheme c = ''https'' \<and> host c = ''h'' \<and> lastSeqId c = - 1)
   \<and> Prober_Do example_parse (\<lambda>p client. (Some client, None)) (example_prober ''ftp://host/x.flv'')
     = (None, Some ErrUnsupportedProtocol)
   \<and> Prober_Do example_parse (\<lambda>p client. (Some client, None)) (example_prober ''http://h/seg.ts'')
     = (None, Some ErrUnsupportedProtocol)
   \<and> Prober_Do example_parse (\<lambda>p client. (Some client, None)) (example_prober ''%zz'')
     = (None, Some ErrLibrary)"
proof -
  let ?run = "\<lambda>(p :: Prober) client. (Some (client :: Client), None :: error option)"
  have 1: "example_parse (Url (example_prober ''http://h/a.flv''))
      = Inr \<lparr>Scheme = ''http'', Host = ''h'', Path = ''/a.flv''\<rparr>"
    by (simp add: example_parse_def example_prober_def)
  have 2: "example_parse (Url (example_prober ''https://h/live/a.m3u8''))
      = Inr \<lparr>Scheme = ''https'', Host = ''h'', Path = ''/live/a.m3u8''\<rparr>"
    by (simp add: example_parse_def example_prober_def)
  have 3: "example_parse (Url (example_prober ''ftp://host/x.flv''))
      = Inr \<lparr>Scheme = ''ftp'', Host = ''host'', Path = ''/x.flv''\<rparr>"
    by (simp add: example_parse_def example_prober_def)
  have 4: "example_parse (Url (example_prober ''http://h/seg.ts''))
      = Inr \<lparr>Scheme = ''http'', Host = ''h'', Path = ''/seg.ts''\<rparr>"
    by (simp add: example_parse_def example_prober_def)
  have 5: "example_parse (Url (example_prober ''%zz'')) = Inl ErrLibrary"
    by (simp add: example_parse_def example_prober_def)
  show ?thesis
    using
      Prober_Do_dispatch [where parse = example_parse and run = ?run
        and p = "example_prober ''http://h/a.flv''"
        and u = "\<lparr>Scheme = ''http'', Host = ''h'', Path = ''/a.flv''\<rparr>"]
      Prober_Do_dispatch [where parse = example_parse and run = ?run
        and p = "example_prober ''https://h/live/a.m3u8''"
        and u = "\<lparr>Scheme = ''https'', Host = ''h'', Path = ''/live/a.m3u8''\<rparr>"]
      Prober_Do_dispatch [where parse = example_parse and run = ?run
        and p = "example_prober ''ftp://host/x.flv''"
        and u = "\<lparr>Scheme = ''ftp'', Host = ''host'', Path = ''/x.flv''\<rparr>"]
      Prober_Do_dispatch [where parse = example_parse and run = ?run
        and p = "example_prober ''http://h/seg.ts''"
        and u = "\<lparr>Scheme = ''http'', Host = ''h'', Path = ''/seg.ts''\<rparr>"]
      Prober_Do_dispatch [where parse = example_parse and run = ?run
        and p = "example_prober ''%zz''" and err = ErrLibrary]
      1 2 3 4 5
    by (simp add: Ext_def example_prober_def) blast
qed

text \<open>A request built with a nil header map has no header.\<close>

lemma newRequest_nil_header:
  "newRequest parse canon rawurl None = Inr req \<Longrightarrow> Header req = Map.empty"
  by (auto simp add: newRequest_def NewRequest_def split: sum.splits)

text \<open>
  C2. The \<open>Header\<close> map of the prober reaches no request. \<open>Prober.Do\<close> builds both clients
  without it, and \<open>FlvClient.Connect\<close>, \<open>HlsClient.Connect\<close>, \<open>downloadM3u8\<close> and
  \<open>HlsClient.Read\<close> all call \<open>newRequest\<close> with nil: for a prober with the header
  \<open>User-Agent: probe\<close> each request has an empty header, where \<open>newRequest\<close> called with
  the map would have set it.
\<close>

theorem requests_carry_no_header:
  "Prober_Do_client example_parse (example_prober ''http://h/a.flv'')
     = Inr (CFlvClient \<lparr>FlvClient.url = ''http://h/a.flv'', header = None\<rparr>)
   \<and> FlvClient_Connect_request example_parse id \<lparr>FlvClient.url = ''http://h/a.flv'', header = None\<rparr>
     = Inr \<lparr>Method = ''GET'', URL = \<lparr>Scheme = ''http'', Host = ''h'', Path = ''/a.flv''\<rparr>,
            Header = Map.empty\<rparr>
   \<and> Prober_Do_client example_parse (example_prober ''https://h/live/a.m3u8'')
     = Inr (CHlsClient (newHlsClient ''https://h/live/a.m3u8'' ''https'' ''h''))
   \<and> HlsClient_Connect_request example_parse id (newHlsClient ''https://h/live/a.m3u8'' ''https'' ''h'')
     = Inr \<lparr>Method = ''GET'', URL = \<lparr>Scheme = ''https'', Host = ''h'', Path = ''/live/a.m3u8''\<rparr>,
            Header = Map.empty\<rparr>
   \<and> downloadM3u8_request example_parse id (newHlsClient ''https://h/live/a.m3u8'' ''https'' ''h'')
     = Inr \<lparr>Method = ''GET'', URL = \<lparr>Scheme = ''https'', Host = ''h'', Path = ''/live/a.m3u8''\<rparr>,
            Header = Map.empty\<rparr>
   \<and> HlsClient_Read_request example_parse id
       ((newHlsClient ''https://h/live/a.m3u8'' ''https'' ''h'')
          \<lparr>playlist := [\<lparr>TsSegment.url = ''http://h/seg.ts'', seqId = 5\<rparr>]\<rparr>)
     = Some (Inr \<lparr>Method = ''GET'', URL = \<lparr>Scheme = ''http'', Host = ''h'', Path = ''/seg.ts''\<rparr>,
                  Header = Map.empty\<rparr>)
   \<and> Prober.Header (example_prober ''http://h/a.flv'') = Some [(''User-Agent'', ''probe'')]
   \<and> newRequest example_parse id ''http://h/a.flv'' (Some [(''User-Agent'', ''probe'')])
     = Inr \<lparr>Method = ''GET'', URL = \<lparr>Scheme = ''http'', Host = ''h'', Path = ''/a.flv''\<rparr>,
            Header = [''User-Agent'' \<mapsto> [''probe'']]\<rparr>"
  by (simp add: Prober_Do_client_def example_parse_def example_prober_def Ext_def
      FlvClient_Connect_request_def HlsClient_Connect_request_def downloadM3u8_request_def
      HlsClient_Read_request_def Read_pop_def newRequest_def NewRequest_def Header_Set_def
      newHlsClient_def)

section \<open>Properties of the player\<close>

lemma Player_packet_flags:
  assumes "Player_packet ops now pkt s = Inr s'"
  shows "startPlay s' \<longrightarrow> startPlay s \<or> hasVideo s'"
    and "hasVideo s \<longrightarrow> hasVideo s'"
    and "pktType pkt \<noteq> PktVideo \<longrightarrow> startPlay s' = startPlay s \<and> hasVideo s' = hasVideo s"
  using assms
  by (auto simp add: Player_packet_def Let_def split: if_splits)

lemma Player_tick_flags:
  assumes "Player_tick now s = Inr s'"
  shows "startPlay s' = startPlay s" and "hasVideo s' = hasVideo s"
  using assms
  by (auto simp add: Player_tick_def Let_def assign_def split: if_splits option.splits queue_ref.splits)

lemma Player_done_flags:
  "startPlay (Player_done ops now s) = startPlay s" "hasVideo (Player_done ops now s) = hasVideo s"
  by (simp_all add: Player_done_def Let_def)

lemma Player_tick_nil:
  "Player_tick now s = Inl e \<Longrightarrow> e = PanicNilDereference \<and> startPlay s \<and> \<not> hasVideo s"
  by (auto simp add: Player_tick_def Let_def select_queue_def split: if_splits option.splits)

lemma Player_packet_not_nil:
  "Player_packet ops now pkt s \<noteq> Inl PanicNilDereference"
  by (auto simp add: Player_packet_def Let_def split: if_splits)

lemma Player_Do_loop_invariant:
  assumes "Player_Do_loop ops s0 evs = Inr s" and "startPlay s0 \<longrightarrow> hasVideo s0"
  shows "startPlay s \<longrightarrow> hasVideo s"
  using assms
proof (induction ops s0 evs rule: Player_Do_loop.induct)
  case (1 ops s)
  then show ?case by simp
next
  case (2 ops s now evs)
  then show ?case by (auto simp add: Player_done_flags)
next
  case (3 ops s0 now pkt evs)
  from "3.prems"(1) obtain s1 where p: "Player_packet ops now pkt s0 = Inr s1"
    and r: "Player_Do_loop ops s1 evs = Inr s"
    by (auto split: sum.splits)
  from Player_packet_flags [OF p] "3.prems"(2) have "startPlay s1 \<longrightarrow> hasVideo s1" by blast
  with "3.IH" [OF p r] show ?case .
next
  case (4 ops s0 now evs)
  from "4.prems"(1) obtain s1 where p: "Player_tick now s0 = Inr s1"
    and r: "Player_Do_loop ops s1 evs = Inr s"
    by (auto split: sum.splits)
  from Player_tick_flags [OF p] "4.prems"(2) have "startPlay s1 \<longrightarrow> hasVideo s1" by simp
  with "4.IH" [OF p r] show ?case .
qed

lemma Player_Do_loop_no_nil:
  assumes "startPlay s0 \<longrightarrow> hasVideo s0"
  shows "Player_Do_loop ops s0 evs \<noteq> Inl PanicNilDereference"
  using assms
proof (induction ops s0 evs rule: Player_Do_loop.induct)
  case (1 ops s)
  then show ?case by simp
next
  case (2 ops s now evs)
  then show ?case by simp
next
  case (3 ops s0 now pkt evs)
  show ?case
  proof (cases "Player_packet ops now pkt s0")
    case (Inl e)
    with Player_packet_not_nil [of ops now pkt s0] show ?thesis by auto
  next
    case (Inr s1)
    from Player_packet_flags [OF Inr] "3.prems" have "startPlay s1 \<longrightarrow> hasVideo s1" by blast
    with "3.IH" [OF Inr] Inr show ?thesis by simp
  qed
next
  case (4 ops s0 now evs)
  show ?case
  proof (cases "Player_tick now s0")
    case (Inl e)
    with Player_tick_nil [OF Inl] "4.prems" show ?thesis by auto
  next
    case (Inr s1)
    from Player_tick_flags [OF Inr] "4.prems" have "startPlay s1 \<longrightarrow> hasVideo s1" by simp
    with "4.IH" [OF Inr] Inr show ?thesis by simp
  qed
qed

lemma Player_Do_loop_audio_only:
  assumes "Player_Do_loop ops s0 evs = Inr s" and "\<forall>ev\<in>set evs. \<not> is_video ev"
  shows "startPlay s = startPlay s0"
  using assms
proof (induction ops s0 evs rule: Player_Do_loop.induct)
  case (1 ops s)
  then show ?case by simp
next
  case (2 ops s now evs)
  then show ?case by (auto simp add: Player_done_flags)
next
  case (3 ops s0 now pkt evs)
  from "3.prems"(1) obtain s1 where p: "Player_packet ops now pkt s0 = Inr s1"
    and r: "Player_Do_loop ops s1 evs = Inr s"
    by (auto split: sum.splits)
  from "3.prems"(2) have nv: "pktType pkt \<noteq> PktVideo" and rest: "\<forall>ev\<in>set evs. \<not> is_video ev"
    by (simp_all add: is_video_def)
  from Player_packet_flags(3) [OF p] nv have "startPlay s1 = startPlay s0" by simp
  with "3.IH" [OF p r rest] show ?case by simp
next
  case (4 ops s0 now evs)
  from "4.prems"(1) obtain s1 where p: "Player_tick now s0 = Inr s1"
    and r: "Player_Do_loop ops s1 evs = Inr s"
    by (auto split: sum.splits)
  from "4.prems"(2) have rest: "\<forall>ev\<in>set evs. \<not> is_video ev" by simp
  from Player_tick_flags [OF p] have "startPlay s1 = startPlay s0" by simp
  with "4.IH" [OF p r rest] show ?case by simp
qed

lemma Do_start_flags: "\<not> startPlay (Do_start p)" "\<not> hasVideo (Do_start p)"
  by (simp_all add: Do_start_def)

lemma upt_60: "[0..<60] = [0, 1, 2, 3, 4, 5, 6, 7, 8, 9, 10, 11, 12, 13, 14, 15, 16, 17, 18, 19, 20, 21, 22, 23, 24, 25, 26, 27, 28, 29, 30, 31, 32, 33, 34, 35, 36, 37, 38, 39, 40, 41, 42, 43, 44, 45, 46, 47, 48, 49, 50, 51, 52, 53, 54, 55, 56, 57, 58, 59]"
  by code_simp

lemma frames_60_start:
  "summary (Player_Do exact_ops (NewPlayer 500 info0) (frames 60)) = Some (True, True, 15, 33000000)"
  by (simp add: frames_def upt_60 summary_def Player_Do_def NewPlayer_def Do_start_def info0_def
      Player_packet_def video_def PktVideo_def estimate_fps_def estimate_def exact_ops_def Let_def
      wrap64_def quo_def Millisecond_def Microsecond_def since_ms_def Since_def)

text \<open>
  C9. In every state that \<open>Player.Do\<close> reaches, \<open>startPlay\<close> implies \<open>hasVideo\<close>. So when
  \<open>startPlay\<close> holds the queue pointer of a tick is \<open>&p.vqueue\<close>, a tick never dereferences a
  nil pointer, and \<open>startPlay\<close> stays false as long as no video packet has come.
\<close>

theorem startPlay_implies_hasVideo:
  assumes "Player_Do ops (NewPlayer b i) evs = Inr s"
  shows "(startPlay s \<longrightarrow> hasVideo s)
       \<and> (startPlay s \<longrightarrow> select_queue s = Some VQueue)
       \<and> Player_tick now s \<noteq> Inl PanicNilDereference
       \<and> Player_Do ops (NewPlayer b i) (evs @ [(now, Tick)]) \<noteq> Inl PanicNilDereference
       \<and> ((\<forall>ev\<in>set evs. \<not> is_video ev) \<longrightarrow> \<not> startPlay s)"
proof -
  from assms have r: "Player_Do_loop ops (Do_start (NewPlayer b i)) evs = Inr s"
    by (simp add: Player_Do_def)
  have inv: "startPlay s \<longrightarrow> hasVideo s"
    using r by (rule Player_Do_loop_invariant) (simp add: Do_start_flags)
  then have q: "startPlay s \<longrightarrow> select_queue s = Some VQueue"
    by (simp add: select_queue_def)
  have t: "Player_tick now s \<noteq> Inl PanicNilDereference"
    using inv Player_tick_nil [of now s] by auto
  have n: "Player_Do ops (NewPlayer b i) (evs @ [(now, Tick)]) \<noteq> Inl PanicNilDereference"
    unfolding Player_Do_def by (rule Player_Do_loop_no_nil) (simp add: Do_start_flags)
  have a: "(\<forall>ev\<in>set evs. \<not> is_video ev) \<longrightarrow> \<not> startPlay s"
    using Player_Do_loop_audio_only [OF r] by (auto simp add: Do_start_flags)
  from inv q t n a show ?thesis by blast
qed

theorem startPlay_implies_hasVideo_witness:
  "(\<exists>s. Player_Do exact_ops (NewPlayer 500 info0) (frames 60) = Inr s
        \<and> startPlay s \<and> hasVideo s \<and> select_queue s = Some VQueue
        \<and> Player_tick 0 s \<noteq> Inl PanicNilDereference)
   \<and> (\<exists>s. Player_Do exact_ops (NewPlayer 500 info0) [(0, Packet (audio 0)), (1, Tick)] = Inr s
        \<and> \<not> startPlay s)"
proof -
  from frames_60_start obtain s
    where r: "Player_Do exact_ops (NewPlayer 500 info0) (frames 60) = Inr s" and p: "startPlay s"
    by (auto simp add: summary_def split: sum.splits)
  obtain s'
    where r': "Player_Do exact_ops (NewPlayer 500 info0) [(0, Packet (audio 0)), (1, Tick)] = Inr s'"
    by (simp add: Player_Do_def NewPlayer_def Do_start_def Player_packet_def Player_tick_def
        audio_def PktAudio_def PktVideo_def Let_def)
  have a: "\<forall>ev\<in>set [(0, Packet (audio 0)), (1, Tick)]. \<not> is_video ev"
    by (simp add: is_video_def audio_def PktAudio_def PktVideo_def)
  from startPlay_implies_hasVideo [OF r, of 0] p startPlay_implies_hasVideo [OF r', of 0] a r r'
  show ?thesis by blast
qed

section \<open>The reslice at the start of the playback\<close>

lemma wrap64_le: "0 \<le> x \<Longrightarrow> wrap64 x \<le> x"
proof -
  assume "0 \<le> x"
  then have "(x + 2 ^ 63) mod 2 ^ 64 \<le> x + 2 ^ 63"
    by (intro zmod_le_nonneg_dividend) simp
  then show ?thesis by (simp add: wrap64_def int_word_sint)
qed

lemma wrap64_id: "0 \<le> x \<Longrightarrow> x < 2 ^ 63 \<Longrightarrow> wrap64 x = x"
  by (simp add: wrap64_def sint_sbintrunc' signed_take_bit_int_eq_self)

lemma unat_word_of_int_le: "0 \<le> k \<Longrightarrow> int (unat (word_of_int k :: 32 word)) \<le> k"
proof -
  assume k: "0 \<le> k"
  have "int (unat (word_of_int k :: 32 word)) = k mod 2 ^ 32"
    by (simp add: uint_word_of_int take_bit_eq_mod)
  also have "\<dots> \<le> k" using k by (rule zmod_le_nonneg_dividend)
  finally show ?thesis .
qed

lemma quo_nonneg: "0 \<le> a \<Longrightarrow> 0 < b \<Longrightarrow> quo a b = a div b"
  by (simp add: quo_def)

lemma pktNum_le:
  assumes "0 \<le> b" and "b \<le> 30000" and "0 < fd"
    and "wrap64 (b * Millisecond) \<le> wrap64 (int n * fd)"
  shows "unat (word_of_int (quo (wrap64 (b * Millisecond)) fd) :: uint32) \<le> n"
proof -
  let ?B = "b * Millisecond"
  have B: "0 \<le> ?B" "?B < 2 ^ 63" using assms(1,2) by (simp_all add: Millisecond_def)
  then have wB: "wrap64 ?B = ?B" by (rule wrap64_id)
  have "0 \<le> int n * fd" using assms(3) by simp
  then have "wrap64 (int n * fd) \<le> int n * fd" by (rule wrap64_le)
  with assms(4) wB have le: "?B \<le> int n * fd" by simp
  have "?B div fd \<le> (int n * fd) div fd" using le assms(3) by (intro zdiv_mono1) simp_all
  also have "\<dots> = int n" using assms(3) by simp
  finally have d: "?B div fd \<le> int n" .
  have q: "quo (wrap64 ?B) fd = ?B div fd" using B(1) assms(3) by (simp add: wB quo_nonneg)
  have "0 \<le> ?B div fd" using B(1) assms(3) by (simp add: pos_imp_zdiv_nonneg_iff)
  then have "int (unat (word_of_int (?B div fd) :: uint32)) \<le> ?B div fd"
    by (rule unat_word_of_int_le)
  with d have "uint (word_of_int (?B div fd) :: uint32) \<le> int n" by simp
  then have "nat (uint (word_of_int (?B div fd) :: uint32)) \<le> n"
    by linarith
  then have "unat (word_of_int (?B div fd) :: uint32) \<le> n"
    by (simp only: unat_eq_nat_uint)
  with q show ?thesis by simp
qed

lemma Player_packet_no_slice_panic:
  assumes "0 \<le> bufferTimeMs s" and "bufferTimeMs s \<le> 30000"
  shows "Player_packet ops now pkt s \<noteq> Inl PanicSliceBounds"
proof -
  define fd where "fd = wrap64 (f32_to_int64 ops
      (f32_div ops (f32_of_int ops 1000000) (estimate_fps ops (vqueue s @ [pkt]))) * Microsecond)"
  have "0 < fd \<Longrightarrow> wrap64 (bufferTimeMs s * Millisecond) \<le> wrap64 ((1 + int (length (vqueue s))) * fd)
      \<Longrightarrow> unat (word_of_int (quo (wrap64 (bufferTimeMs s * Millisecond)) fd) :: uint32)
          \<le> Suc (length (vqueue s))"
    using pktNum_le [OF assms, of fd "Suc (length (vqueue s))"] by simp
  then show ?thesis
    unfolding fd_def
    by (auto simp add: Player_packet_def Let_def not_le split: if_splits)
qed

lemma Player_packet_bufferTimeMs:
  "Player_packet ops now pkt s = Inr s' \<Longrightarrow> bufferTimeMs s' = bufferTimeMs s"
  by (auto simp add: Player_packet_def Let_def split: if_splits)

lemma Player_tick_bufferTimeMs:
  "Player_tick now s = Inr s' \<Longrightarrow> bufferTimeMs s' = bufferTimeMs s"
  by (auto simp add: Player_tick_def Let_def assign_def
      split: if_splits option.splits queue_ref.splits)

lemma Player_tick_not_slice: "Player_tick now s \<noteq> Inl PanicSliceBounds"
  by (auto simp add: Player_tick_def Let_def split: if_splits option.splits)

lemma NewPlayer_bufferTimeMs:
  "0 \<le> bufferTimeMs (Do_start (NewPlayer b i))" "bufferTimeMs (Do_start (NewPlayer b i)) \<le> 30000"
proof -
  show "0 \<le> bufferTimeMs (Do_start (NewPlayer b i))"
    by (simp add: Do_start_def NewPlayer_def)
  have "\<not> 30000 < b \<Longrightarrow> uint b \<le> 30000"
    by (simp add: word_less_def not_less)
  then show "bufferTimeMs (Do_start (NewPlayer b i)) \<le> 30000"
    by (simp add: Do_start_def NewPlayer_def)
qed

text \<open>
  The reslice of the queue at the start of the playback stays within the queue: in a run of
  a player that \<open>NewPlayer\<close> made, \<open>pktNum\<close> is at most the length of \<open>vqueue\<close>.
\<close>

lemma Player_Do_loop_no_slice_panic:
  assumes "0 \<le> bufferTimeMs s0" and "bufferTimeMs s0 \<le> 30000"
  shows "Player_Do_loop ops s0 evs \<noteq> Inl PanicSliceBounds"
  using assms
proof (induction ops s0 evs rule: Player_Do_loop.induct)
  case (1 ops s)
  then show ?case by simp
next
  case (2 ops s now evs)
  then show ?case by simp
next
  case (3 ops s0 now pkt evs)
  show ?case
  proof (cases "Player_packet ops now pkt s0")
    case (Inl e)
    with Player_packet_no_slice_panic [OF "3.prems", of ops now pkt] show ?thesis by auto
  next
    case (Inr s1)
    from Player_packet_bufferTimeMs [OF Inr] "3.prems"
    have "0 \<le> bufferTimeMs s1" "bufferTimeMs s1 \<le> 30000" by simp_all
    with "3.IH" [OF Inr] Inr show ?thesis by simp
  qed
next
  case (4 ops s0 now evs)
  show ?case
  proof (cases "Player_tick now s0")
    case (Inl e)
    with Player_tick_not_slice [of now s0] show ?thesis by auto
  next
    case (Inr s1)
    from Player_tick_bufferTimeMs [OF Inr] "4.prems"
    have "0 \<le> bufferTimeMs s1" "bufferTimeMs s1 \<le> 30000" by simp_all
    with "4.IH" [OF Inr] Inr show ?thesis by simp
  qed
qed

lemma Player_Do_no_slice_panic: "Player_Do ops (NewPlayer b i) evs \<noteq> Inl PanicSliceBounds"
  unfolding Player_Do_def
  by (rule Player_Do_loop_no_slice_panic) (rule NewPlayer_bufferTimeMs)+

section \<open>Properties of the frame rate estimate\<close>

lemma sint_diff_no_overflow:
  fixes a b :: "32 word"
  assumes "- (2 ^ 31) \<le> sint a - sint b" and "sint a - sint b < 2 ^ 31"
  shows "sint (a - b) = sint a - sint b"
  using assms by (simp add: sint_word_diff signed_take_bit_int_eq_self)

lemma word_of_int_sint_diff:
  "(word_of_int (sint a - sint b + k) :: 32 word) = (a - b) + word_of_int k"
  by (simp add: wi_hom_syms)

lemma estimate_loop_samples:
  assumes "\<forall>d\<in>set (deltas (sint lastPts # map (\<lambda>p. sint (pts p)) q)). - (2 ^ 31) \<le> d \<and> d < 2 ^ 31"
  shows "estimate_loop lastPts count tot q =
           (count + int (length (samples (sint lastPts # map (\<lambda>p. sint (pts p)) q))),
            tot + word_of_int (sum_list (samples (sint lastPts # map (\<lambda>p. sint (pts p)) q))))"
  using assms
proof (induction q arbitrary: lastPts count tot)
  case Nil
  then show ?case by (simp add: samples_def)
next
  case (Cons pkt rest)
  let ?d = "sint (pts pkt) - sint lastPts"
  let ?S = "samples (sint (pts pkt) # map (\<lambda>p. sint (pts p)) rest)"
  from Cons.prems have b: "- (2 ^ 31) \<le> ?d" "?d < 2 ^ 31"
    by simp_all
  then have d: "sint (pts pkt - lastPts) = ?d"
    by (rule sint_diff_no_overflow)
  from Cons.prems
  have r: "\<forall>d\<in>set (deltas (sint (pts pkt) # map (\<lambda>p. sint (pts p)) rest)). - (2 ^ 31) \<le> d \<and> d < 2 ^ 31"
    by simp
  note IH = Cons.IH [OF r]
  show ?case
  proof (cases "0 < ?d \<and> ?d < 100")
    case True
    then have s: "samples (sint lastPts # map (\<lambda>p. sint (pts p)) (pkt # rest)) = ?d # ?S"
      by (simp add: samples_def)
    from True d have "estimate_loop lastPts count tot (pkt # rest)
        = estimate_loop (pts pkt) (count + 1) (tot + (pts pkt - lastPts)) rest"
      by simp
    also have "\<dots> = (count + 1 + int (length ?S), tot + (pts pkt - lastPts) + word_of_int (sum_list ?S))"
      by (rule IH)
    also have "\<dots> = (count + int (length (?d # ?S)), tot + word_of_int (sum_list (?d # ?S)))"
      by (simp only: list.size length_Cons sum_list.Cons word_of_int_sint_diff) simp
    finally show ?thesis by (simp only: s)
  next
    case False
    then have s: "samples (sint lastPts # map (\<lambda>p. sint (pts p)) (pkt # rest)) = ?S"
      by (simp add: samples_def)
    from False d have "estimate_loop lastPts count tot (pkt # rest)
        = estimate_loop (pts pkt) count tot rest"
      by auto
    also have "\<dots> = (count + int (length ?S), tot + word_of_int (sum_list ?S))"
      by (rule IH)
    finally show ?thesis by (simp only: s)
  qed
qed

lemma estimate_samples:
  assumes "q \<noteq> []"
    and "\<forall>d\<in>set (deltas (map (\<lambda>p. sint (pts p)) q)). - (2 ^ 31) \<le> d \<and> d < 2 ^ 31"
  shows "estimate q = (int (length (samples (map (\<lambda>p. sint (pts p)) q))),
                       word_of_int (sum_list (samples (map (\<lambda>p. sint (pts p)) q))))"
proof -
  from assms(1) obtain p rest where q: "q = p # rest" by (cases q) auto
  with assms(2) show ?thesis
    using estimate_loop_samples [of "pts p" rest 0 0]
    by (simp add: estimate_def)
qed

lemma estimate_loop_replicate:
  "estimate_loop (pts p) count tot (replicate n p) = (count, tot)"
  by (induction n) simp_all

lemma deltas_replicate: "deltas (a # replicate n a) = replicate n 0"
  by (induction n) simp_all

lemma sum_list_samples_pos: "samples l \<noteq> [] \<Longrightarrow> 0 < sum_list (samples l)"
proof -
  have "\<forall>d\<in>set (samples l). 0 < d" by (simp add: samples_def)
  moreover have "xs \<noteq> [] \<Longrightarrow> \<forall>d\<in>set xs. 0 < d \<Longrightarrow> 0 < sum_list xs" for xs :: "int list"
  proof (induction xs)
    case Nil
    then show ?case by simp
  next
    case (Cons a xs)
    then have "0 < a" and "0 \<le> sum_list xs"
      by (auto intro: sum_list_nonneg less_imp_le)
    then show ?case by simp
  qed
  ultimately show "samples l \<noteq> [] \<Longrightarrow> 0 < sum_list (samples l)" by blast
qed

text \<open>
  When no difference of consecutive PTS values, read as \<open>int32\<close>, overflows, the estimate
  is 30 if there is no sample, and otherwise the number of samples divided by their sum (as
  long as the sum is an \<open>int32\<close>) and multiplied by 1000.
\<close>

lemma estimate_fps_samples:
  assumes "q \<noteq> []"
    and "\<forall>d\<in>set (deltas (map (\<lambda>p. sint (pts p)) q)). - (2 ^ 31) \<le> d \<and> d < 2 ^ 31"
    and "sum_list (samples (map (\<lambda>p. sint (pts p)) q)) < 2 ^ 31"
  shows "estimate_fps ops q =
     (if samples (map (\<lambda>p. sint (pts p)) q) = [] then f32_of_int ops 30
      else f32_mul ops
             (f32_div ops (f32_of_int ops (int (length (samples (map (\<lambda>p. sint (pts p)) q)))))
                (f32_of_int ops (sum_list (samples (map (\<lambda>p. sint (pts p)) q)))))
             (f32_of_int ops 1000))"
proof -
  let ?S = "samples (map (\<lambda>p. sint (pts p)) q)"
  have e: "estimate q = (int (length ?S), word_of_int (sum_list ?S))"
    using assms(1,2) by (rule estimate_samples)
  show ?thesis
  proof (cases "?S = []")
    case True
    then show ?thesis by (simp add: estimate_fps_def e)
  next
    case False
    then have pos: "0 < sum_list ?S" by (rule sum_list_samples_pos)
    with assms(3) have s: "sint (word_of_int (sum_list ?S) :: 32 word) = sum_list ?S"
      by (simp add: sint_sbintrunc' signed_take_bit_int_eq_self)
    with pos have "(word_of_int (sum_list ?S) :: 32 word) \<noteq> 0"
      by auto
    with False s show ?thesis by (simp add: estimate_fps_def e)
  qed
qed

text \<open>
  C8. The two conditions of the loop are \<open>int32\<close> comparisons, and the subtraction in the
  second wraps around. For a queue of 60 video packets whose PTS goes from \<open>0x80000000\<close> to
  \<open>0x7FFFFFFF\<close> and stays there, the first pair is counted as a sample with the duration -1,
  and the estimate is \<open>1 / (-1) * 1000\<close>, although no difference of consecutive PTS values
  lies between 0 and 100, whether the PTS is read as unsigned or as signed.
\<close>

theorem estimate_counts_overflowing_delta:
  "length (video 0x80000000 # replicate 59 (video 0x7FFFFFFF)) = 60
   \<and> estimate (video 0x80000000 # replicate 59 (video 0x7FFFFFFF)) = (1, - 1)
   \<and> estimate_fps ops (video 0x80000000 # replicate 59 (video 0x7FFFFFFF))
       = f32_mul ops (f32_div ops (f32_of_int ops 1) (f32_of_int ops (- 1))) (f32_of_int ops 1000)
   \<and> samples (map (\<lambda>p. uint (pts p)) (video 0x80000000 # replicate 59 (video 0x7FFFFFFF))) = []
   \<and> samples (map (\<lambda>p. sint (pts p)) (video 0x80000000 # replicate 59 (video 0x7FFFFFFF))) = []"
proof -
  have r: "replicate 59 (video 0x7FFFFFFF) = video 0x7FFFFFFF # replicate 58 (video 0x7FFFFFFF)"
    by (simp add: numeral_eq_Suc)
  have e: "estimate (video 0x80000000 # replicate 59 (video 0x7FFFFFFF)) = (1, - 1)"
    unfolding r estimate_def
    using estimate_loop_replicate [of "video 0x7FFFFFFF" 1 "- 1" 58]
    by (simp add: video_def)
  have u: "samples (map (\<lambda>p. uint (pts p)) (video 0x80000000 # replicate 59 (video 0x7FFFFFFF))) = []"
    unfolding r using deltas_replicate [of "2147483647" 58]
    by (simp add: video_def samples_def)
  have s: "samples (map (\<lambda>p. sint (pts p)) (video 0x80000000 # replicate 59 (video 0x7FFFFFFF))) = []"
    unfolding r using deltas_replicate [of "2147483647" 58]
    by (simp add: video_def samples_def)
  have f: "estimate_fps ops (video 0x80000000 # replicate 59 (video 0x7FFFFFFF))
      = f32_mul ops (f32_div ops (f32_of_int ops 1) (f32_of_int ops (- 1))) (f32_of_int ops 1000)"
    by (simp only: estimate_fps_def e) simp
  have l: "length (video 0x80000000 # replicate 59 (video 0x7FFFFFFF)) = 60"
    by simp
  from l e f u s show ?thesis by (intro conjI)
qed

end
